theory Spec2Isabelle
  imports Main
begin

section \<open>Strings\<close>

text \<open>
  A Go string is a sequence of bytes; it is modelled as a \<open>string\<close>, one \<open>char\<close> per byte,
  with non-ASCII text in UTF-8.
\<close>

definition byte :: "char \<Rightarrow> int" where
  "byte c = of_char c"

definition isDigit :: "char \<Rightarrow> bool" where
  "isDigit c = (48 \<le> byte c \<and> byte c \<le> 57)"

definition digitVal :: "char \<Rightarrow> int" where
  "digitVal c = byte c - 48"

definition isUpper :: "char \<Rightarrow> bool" where
  "isUpper c = (65 \<le> byte c \<and> byte c \<le> 90)"

definition isLower :: "char \<Rightarrow> bool" where
  "isLower c = (97 \<le> byte c \<and> byte c \<le> 122)"

text \<open>
  \<open>strings.ToLower\<close>, on the ASCII letters. \<open>cleanField\<close> only compares its result with
  \<open>null\<close>, \<open>true\<close> and \<open>false\<close>: the only ASCII letters that are the lower case of a
  code point beyond ASCII are \<open>i\<close> and \<open>k\<close>, which these words do not have, so the comparison
  succeeds on ASCII text only. \<open>formatType\<close> applies it to a type keyword of the lexer, which
  is ASCII but for U+017F, and that is its own lower case.
\<close>

definition lowerChar :: "char \<Rightarrow> char" where
  "lowerChar c = (if isUpper c then char_of (byte c + 32) else c)"

definition ToLower :: "string \<Rightarrow> string" where
  "ToLower s = map lowerChar s"

text \<open>
  \<open>strings.TrimSpace\<close> removes the leading and trailing code points that
  \<open>unicode.IsSpace\<close> accepts. \<open>spaceSeqs\<close> lists their UTF-8 encodings: tab, line feed,
  vertical tab, form feed, carriage return, space, U+0085, U+00A0, U+1680, U+2000 to U+200A,
  U+2028, U+2029, U+202F, U+205F and U+3000.
\<close>

definition spaceSeqs :: "string list" where
  "spaceSeqs =
     [[CHR 0x09], [CHR 0x0A], [CHR 0x0B], [CHR 0x0C], [CHR 0x0D], [CHR 0x20],
      [CHR 0xC2, CHR 0x85], [CHR 0xC2, CHR 0xA0],
      [CHR 0xE1, CHR 0x9A, CHR 0x80],
      [CHR 0xE2, CHR 0x80, CHR 0x80], [CHR 0xE2, CHR 0x80, CHR 0x81],
      [CHR 0xE2, CHR 0x80, CHR 0x82], [CHR 0xE2, CHR 0x80, CHR 0x83],
      [CHR 0xE2, CHR 0x80, CHR 0x84], [CHR 0xE2, CHR 0x80, CHR 0x85],
      [CHR 0xE2, CHR 0x80, CHR 0x86], [CHR 0xE2, CHR 0x80, CHR 0x87],
      [CHR 0xE2, CHR 0x80, CHR 0x88], [CHR 0xE2, CHR 0x80, CHR 0x89],
      [CHR 0xE2, CHR 0x80, CHR 0x8A],
      [CHR 0xE2, CHR 0x80, CHR 0xA8], [CHR 0xE2, CHR 0x80, CHR 0xA9],
      [CHR 0xE2, CHR 0x80, CHR 0xAF],
      [CHR 0xE2, CHR 0x81, CHR 0x9F],
      [CHR 0xE3, CHR 0x80, CHR 0x80]]"

fun stripOne :: "string list \<Rightarrow> string \<Rightarrow> string option" where
  "stripOne [] s = None"
| "stripOne (p # ps) s =
     (if p \<noteq> [] \<and> take (length p) s = p then Some (drop (length p) s) else stripOne ps s)"

lemma stripOne_shorter: "stripOne ps s = Some r \<Longrightarrow> length r < length s"
proof (induction ps)
  case Nil
  then show ?case by simp
next
  case (Cons p ps)
  show ?case
  proof (cases "p \<noteq> [] \<and> take (length p) s = p")
    case True
    then have "s \<noteq> []" by auto
    with True Cons.prems show ?thesis by auto
  next
    case False
    with Cons show ?thesis by auto
  qed
qed

function trimSeqs :: "string list \<Rightarrow> string \<Rightarrow> string" where
  "trimSeqs ps s = (case stripOne ps s of None \<Rightarrow> s | Some r \<Rightarrow> trimSeqs ps r)"
  by pat_completeness auto
termination
  by (relation "measure (\<lambda>(ps, s). length s)") (auto dest: stripOne_shorter)

declare trimSeqs.simps [simp del]

definition TrimSpace :: "string \<Rightarrow> string" where
  "TrimSpace s = rev (trimSeqs (map rev spaceSeqs) (rev (trimSeqs spaceSeqs s)))"

definition TrimPrefix :: "string \<Rightarrow> string \<Rightarrow> string" where
  "TrimPrefix s p = (if take (length p) s = p then drop (length p) s else s)"

definition TrimSuffix :: "string \<Rightarrow> string \<Rightarrow> string" where
  "TrimSuffix s p =
     (if length p \<le> length s \<and> drop (length s - length p) s = p
      then take (length s - length p) s else s)"

text \<open>
  \<open>strings.ReplaceAll(value, "\"\"", "\"")\<close>: the occurrences of two quotes are replaced
  from left to right, without overlap.
\<close>

fun unescapeQuotes :: "string \<Rightarrow> string" where
  "unescapeQuotes (a # b # cs) =
     (if a = CHR 0x22 \<and> b = CHR 0x22 then CHR 0x22 # unescapeQuotes cs
      else a # unescapeQuotes (b # cs))"
| "unescapeQuotes cs = cs"

section \<open>Number parsing: \<open>strconv.ParseInt\<close> and \<open>strconv.ParseFloat\<close>\<close>

datatype numError = ErrSyntax | ErrRange

text \<open>
  \<open>strconv.ParseUint(s, 10, 64)\<close>: a non-empty run of decimal digits. The value is kept
  exact here; the range is checked by the caller, which fails with \<open>ErrRange\<close> on every
  value that the unsigned parse would have clipped.
\<close>

fun digitsValue :: "int \<Rightarrow> string \<Rightarrow> int option" where
  "digitsValue acc [] = Some acc"
| "digitsValue acc (c # cs) =
     (if isDigit c then digitsValue (acc * 10 + digitVal c) cs else None)"

definition ParseUint :: "string \<Rightarrow> numError + int" where
  "ParseUint s =
     (if s = [] then Inl ErrSyntax
      else case digitsValue 0 s of None \<Rightarrow> Inl ErrSyntax | Some n \<Rightarrow> Inr n)"

text \<open>\<open>strconv.ParseInt(s, 10, 64)\<close>: an optional sign, then the digits, within int64.\<close>

definition ParseInt :: "string \<Rightarrow> numError + int" where
  "ParseInt s =
     (case s of
        [] \<Rightarrow> Inl ErrSyntax
      | c # cs \<Rightarrow>
          (let neg = (c = CHR ''-'');
               body = (if c = CHR ''+'' \<or> c = CHR ''-'' then cs else s)
           in case ParseUint body of
                Inl e \<Rightarrow> Inl e
              | Inr un \<Rightarrow>
                  if \<not> neg \<and> un \<ge> 2 ^ 63 then Inl ErrRange
                  else if neg \<and> un > 2 ^ 63 then Inl ErrRange
                  else Inr (if neg then - un else un)))"

text \<open>
  A float64 result. \<open>FNum neg m b e\<close> stands for the float64 nearest to
  \<open>(-1)^neg * m * b^e\<close> (\<open>b\<close> is 10 for a decimal literal and 2 for a hexadecimal one);
  the rounding itself is not modelled.
\<close>

datatype float64 = FNum bool int int int | FInf bool | FNaN

text \<open>
  The conversion overflows, and \<open>ParseFloat\<close> fails with \<open>ErrRange\<close>, when the exact value
  rounds to infinity: when it is at least \<open>2^1024 - 2^970\<close>, half way between the largest
  float64 and \<open>2^1024\<close>. A value too small for a float64 becomes zero without an error.
\<close>

definition overflows :: "int \<Rightarrow> int \<Rightarrow> int \<Rightarrow> bool" where
  "overflows m b e =
     (if 0 \<le> e then m * b ^ nat e \<ge> 2 ^ 1024 - 2 ^ 970
      else m \<ge> (2 ^ 1024 - 2 ^ 970) * b ^ nat (- e))"

fun commonPrefixLenIgnoreCase :: "string \<Rightarrow> string \<Rightarrow> nat" where
  "commonPrefixLenIgnoreCase (c # cs) (p # ps) =
     (if (if isUpper c then lowerChar c else c) = p
      then Suc (commonPrefixLenIgnoreCase cs ps) else 0)"
| "commonPrefixLenIgnoreCase cs ps = 0"

text \<open>
  \<open>special\<close>: the texts \<open>inf\<close>, \<open>infinity\<close> (with an optional sign) and \<open>nan\<close>, in any
  case. It returns the value and the number of bytes read.
\<close>

definition infPrefix :: "string \<Rightarrow> bool \<Rightarrow> nat \<Rightarrow> (float64 \<times> nat) option" where
  "infPrefix s neg nsign =
     (let n0 = commonPrefixLenIgnoreCase s ''infinity'';
          n = (if 3 < n0 \<and> n0 < 8 then 3 else n0)
      in if n = 3 \<or> n = 8 then Some (FInf neg, nsign + n) else None)"

definition special :: "string \<Rightarrow> (float64 \<times> nat) option" where
  "special s =
     (case s of
        [] \<Rightarrow> None
      | c # cs \<Rightarrow>
          if c = CHR ''+'' \<or> c = CHR ''-'' then infPrefix cs (c = CHR ''-'') 1
          else if c = CHR ''i'' \<or> c = CHR ''I'' then infPrefix s False 0
          else if c = CHR ''n'' \<or> c = CHR ''N'' then
            (if commonPrefixLenIgnoreCase s ''nan'' = 3 then Some (FNaN, 3) else None)
          else None)"

text \<open>
  \<open>readFloat\<close>: the state of its scan over the mantissa. The mantissa is kept exact: the
  source keeps its first 19 digits (16 in base 16) for the fast paths and reads the whole
  text again for the exact conversion.
\<close>

record rfState =
  mantissa :: int
  nd :: nat
  dp :: int
  sawdot :: bool
  sawdigits :: bool
  underscores :: bool

definition isHexLetter :: "char \<Rightarrow> bool" where
  "isHexLetter c = ((65 \<le> byte c \<and> byte c \<le> 70) \<or> (97 \<le> byte c \<and> byte c \<le> 102))"

definition hexLetterVal :: "char \<Rightarrow> int" where
  "hexLetterVal c = (if byte c \<le> 70 then byte c - 65 + 10 else byte c - 97 + 10)"

fun mantLoop :: "int \<Rightarrow> rfState \<Rightarrow> string \<Rightarrow> rfState \<times> string" where
  "mantLoop base st [] = (st, [])"
| "mantLoop base st (c # cs) =
     (if c = CHR ''_'' then mantLoop base (st\<lparr>underscores := True\<rparr>) cs
      else if c = CHR ''.'' then
        (if sawdot st then (st, c # cs)
         else mantLoop base (st\<lparr>sawdot := True, dp := int (nd st)\<rparr>) cs)
      else if isDigit c then
        (if c = CHR ''0'' \<and> nd st = 0
         then mantLoop base (st\<lparr>sawdigits := True, dp := dp st - 1\<rparr>) cs
         else mantLoop base
                (st\<lparr>sawdigits := True, nd := nd st + 1,
                    mantissa := mantissa st * base + digitVal c\<rparr>) cs)
      else if base = 16 \<and> isHexLetter c then
        mantLoop base
          (st\<lparr>sawdigits := True, nd := nd st + 1,
              mantissa := mantissa st * 16 + hexLetterVal c\<rparr>) cs
      else (st, c # cs))"

text \<open>The digits of the exponent; the source stops adding digits once \<open>e\<close> reaches 10000.\<close>

fun expLoop :: "int \<Rightarrow> bool \<Rightarrow> string \<Rightarrow> int \<times> bool \<times> string" where
  "expLoop e us [] = (e, us, [])"
| "expLoop e us (c # cs) =
     (if c = CHR ''_'' then expLoop e True cs
      else if isDigit c then expLoop (if e < 10000 then e * 10 + digitVal c else e) us cs
      else (e, us, c # cs))"

text \<open>
  \<open>underscoreOK\<close>: an underscore stands only between digits, or between a base prefix and
  a digit. \<open>saw\<close> is the last kind of byte seen: \<open>0\<close> a digit, \<open>1\<close> an underscore,
  \<open>2\<close> anything else.
\<close>

fun usLoop :: "bool \<Rightarrow> nat \<Rightarrow> string \<Rightarrow> bool" where
  "usLoop hex saw [] = (saw \<noteq> 1)"
| "usLoop hex saw (c # cs) =
     (if isDigit c \<or> (hex \<and> isHexLetter c) then usLoop hex 0 cs
      else if c = CHR ''_'' then (if saw \<noteq> 0 then False else usLoop hex 1 cs)
      else if saw = 1 then False
      else usLoop hex 2 cs)"

definition underscoreOK :: "string \<Rightarrow> bool" where
  "underscoreOK s0 =
     (let s = (case s0 of c # cs \<Rightarrow> if c = CHR ''-'' \<or> c = CHR ''+'' then cs else s0 | [] \<Rightarrow> s0)
      in case s of
           a # b # cs \<Rightarrow>
             if a = CHR ''0'' \<and> lowerChar b \<in> {CHR ''b'', CHR ''o'', CHR ''x''}
             then usLoop (lowerChar b = CHR ''x'') 0 cs
             else usLoop False 2 s
         | _ \<Rightarrow> usLoop False 2 s)"

text \<open>
  \<open>readFloat\<close>: sign, optional \<open>0x\<close> prefix, mantissa, optional exponent (\<open>e\<close> in base
  10, \<open>p\<close>, which is mandatory, in base 16). The result is the sign, the mantissa, the
  base of the exponent, the exponent and the text left unread.
\<close>

definition finishFloat ::
  "string \<Rightarrow> bool \<Rightarrow> bool \<Rightarrow> rfState \<Rightarrow> int \<Rightarrow> bool \<Rightarrow> string \<Rightarrow>
   (bool \<times> int \<times> int \<times> int \<times> string) option" where
  "finishFloat s neg hex st dp' us rest =
     (let ndMant = (if hex then int (nd st) * 4 else int (nd st));
          exp = (if mantissa st \<noteq> 0 then dp' - ndMant else 0)
      in if us \<and> \<not> underscoreOK (take (length s - length rest) s) then None
         else Some (neg, mantissa st, if hex then 2 else 10, exp, rest))"

definition rfInit :: rfState where
  "rfInit = \<lparr>mantissa = 0, nd = 0, dp = 0, sawdot = False, sawdigits = False, underscores = False\<rparr>"

definition hasHexPrefix :: "string \<Rightarrow> bool" where
  "hasHexPrefix s = (2 < length s \<and> s ! 0 = CHR ''0'' \<and> s ! 1 \<in> {CHR ''x'', CHR ''X''})"

definition readFloat :: "string \<Rightarrow> (bool \<times> int \<times> int \<times> int \<times> string) option" where
  "readFloat s =
     (case s of
        [] \<Rightarrow> None
      | c0 # _ \<Rightarrow>
          (let neg = (c0 = CHR ''-'');
               s1 = (if c0 = CHR ''+'' \<or> c0 = CHR ''-'' then tl s else s);
               hex = hasHexPrefix s1;
               (st, r1) = mantLoop (if hex then 16 else 10) rfInit (if hex then drop 2 s1 else s1)
           in if \<not> sawdigits st then None
              else
                (let dp1 = (if sawdot st then dp st else int (nd st));
                     dp2 = (if hex then dp1 * 4 else dp1);
                     expChars = (if hex then {CHR ''p'', CHR ''P''} else {CHR ''e'', CHR ''E''})
                 in case r1 of
                      c # r2 \<Rightarrow>
                        if c \<in> expChars then
                          (if r2 = [] then None
                           else
                             (let esign = (if hd r2 = CHR ''-'' then - 1 else 1 :: int);
                                  r3 = (if hd r2 = CHR ''+'' \<or> hd r2 = CHR ''-'' then tl r2 else r2)
                              in case r3 of
                                   [] \<Rightarrow> None
                                 | d # _ \<Rightarrow>
                                     if \<not> isDigit d then None
                                     else
                                       (let (e, us, r4) = expLoop 0 (underscores st) r3
                                        in finishFloat s neg hex st (dp2 + e * esign) us r4)))
                        else if hex then None
                        else finishFloat s neg hex st dp2 (underscores st) r1
                    | [] \<Rightarrow>
                        if hex then None
                        else finishFloat s neg hex st dp2 (underscores st) r1)))"

text \<open>
  \<open>strconv.ParseFloat(s, 64)\<close>: the whole text must be read; a value that rounds to
  infinity is \<open>ErrRange\<close>.
\<close>

definition ParseFloat :: "string \<Rightarrow> numError + float64" where
  "ParseFloat s =
     (case special s of
        Some (v, n) \<Rightarrow> if n = length s then Inr v else Inl ErrSyntax
      | None \<Rightarrow>
          (case readFloat s of
             None \<Rightarrow> Inl ErrSyntax
           | Some (neg, m, b, e, rest) \<Rightarrow>
               if rest \<noteq> [] then Inl ErrSyntax
               else if overflows m b e then Inl ErrRange
               else Inr (FNum neg m b e)))"

section \<open>The document and the parse tree\<close>

text \<open>
  A row holds values of Go's \<open>any\<close>; \<open>cleanField\<close> produces \<open>nil\<close>, a \<open>bool\<close>, an
  \<open>int64\<close>, a \<open>float64\<close> or a \<open>string\<close>.
\<close>

datatype Value = VNull | VBool bool | VInt int | VFloat float64 | VStr string

record Column =
  colName :: string
  colType :: string

record Table =
  Name :: string
  Columns :: "Column list"
  Rows :: "Value list list"

record Document =
  Tables :: "Table list"

text \<open>
  The parse tree that the grammar builds. A pointer field of the source that may be
  \<open>nil\<close> is an \<open>option\<close>.
\<close>

record comment =
  Text :: string

record tableHeader =
  hdrName :: string

record columnDef =
  cdName :: string
  TypeName :: string
  Params :: "string list"
  Array :: bool
  Nullable :: bool

record schemaDef =
  sdColumns :: "columnDef list"

record field =
  Quoted :: "string option"
  Unquoted :: "string option"

record dataRow =
  Fields :: "field list"

record line =
  Comment :: "comment option"
  TableHeader :: "tableHeader option"
  SchemaDef :: "schemaDef option"
  DataRow :: "dataRow option"
  EmptyLine :: "string option"

section \<open>\<open>cleanField\<close>\<close>

text \<open>
  The text that \<open>cleanField\<close> classifies: a quoted field without its quotes and with doubled
  quotes unescaped, an unquoted field trimmed; \<open>None\<close> when the field has neither.
\<close>

definition fieldText :: "field \<Rightarrow> string option" where
  "fieldText f =
     (case Quoted f of
        Some q \<Rightarrow> Some (unescapeQuotes (TrimSuffix (TrimPrefix q [CHR 0x22]) [CHR 0x22]))
      | None \<Rightarrow>
          (case Unquoted f of
             Some u \<Rightarrow> Some (TrimSpace u)
           | None \<Rightarrow> None))"

definition cleanField :: "field \<Rightarrow> Value" where
  "cleanField f =
     (case fieldText f of
        None \<Rightarrow> VNull
      | Some v \<Rightarrow>
          if v = [] \<or> ToLower v = ''null'' then VNull
          else if ToLower v = ''true'' then VBool True
          else if ToLower v = ''false'' then VBool False
          else
            (case ParseInt v of
               Inr n \<Rightarrow> VInt n
             | Inl _ \<Rightarrow>
                 (case ParseFloat v of
                    Inr x \<Rightarrow> VFloat x
                  | Inl _ \<Rightarrow> VStr v)))"

section \<open>\<open>formatType\<close>\<close>

text \<open>\<open>strings.Join\<close>.\<close>

fun Join :: "string list \<Rightarrow> string \<Rightarrow> string" where
  "Join [] sep = []"
| "Join [x] sep = x"
| "Join (x # y # ys) sep = x @ sep @ Join (y # ys) sep"

definition formatType :: "columnDef \<Rightarrow> string" where
  "formatType col =
     (let typeName = ToLower (TypeName col);
          typeStr =
            (if length (Params col) > 0 then
               (if typeName = ''decimal'' then
                  (if length (Params col) \<ge> 2
                   then ''decimal('' @ Params col ! 0 @ '','' @ Params col ! 1 @ '')''
                   else typeName)
                else if typeName = ''ref'' then
                  (if length (Params col) \<ge> 2
                   then ''ref('' @ Params col ! 0 @ ''.'' @ Params col ! 1 @ '')''
                   else typeName)
                else if typeName = ''enum'' then
                  ''enum('' @ Join (Params col) '' | '' @ '')''
                else typeName)
             else typeName)
      in typeStr @ (if Array col then ''[]'' else []) @ (if Nullable col then ''?'' else []))"

section \<open>\<open>transform\<close>\<close>

text \<open>
  The loop of \<open>transform\<close> over the lines, with its two variables: the tables appended to
  the document so far and the current table (\<open>None\<close> for the \<open>nil\<close> pointer).
\<close>

definition transformStep :: "Table list \<times> Table option \<Rightarrow> line \<Rightarrow> Table list \<times> Table option" where
  "transformStep acc l =
     (case acc of (tables, currentTable) \<Rightarrow>
        (case TableHeader l of
           Some h \<Rightarrow>
             ((case currentTable of Some t \<Rightarrow> tables @ [t] | None \<Rightarrow> tables),
              Some \<lparr>Name = hdrName h, Columns = [], Rows = []\<rparr>)
         | None \<Rightarrow>
             (case (SchemaDef l, currentTable) of
                (Some sd, Some t) \<Rightarrow>
                  (tables,
                   Some (t\<lparr>Columns := Columns t @
                            map (\<lambda>col. \<lparr>colName = cdName col, colType = formatType col\<rparr>)
                              (sdColumns sd)\<rparr>))
              | _ \<Rightarrow>
                  (case (DataRow l, currentTable) of
                     (Some dr, Some t) \<Rightarrow>
                       (tables, Some (t\<lparr>Rows := Rows t @ [map cleanField (Fields dr)]\<rparr>))
                   | _ \<Rightarrow> (tables, currentTable)))))"

definition transform :: "line list \<Rightarrow> Document" where
  "transform ls =
     (case foldl transformStep ([], None) ls of
        (tables, Some t) \<Rightarrow> \<lparr>Tables = tables @ [t]\<rparr>
      | (tables, None) \<Rightarrow> \<lparr>Tables = tables\<rparr>)"

section \<open>\<open>ToJSON\<close>\<close>

text \<open>
  \<open>ToJSON\<close> returns what \<open>json.Marshal\<close> (or \<open>json.MarshalIndent\<close>) returns: the text of the
  encoding, or the error of the encoder. The result of the model is the JSON value that
  the text denotes, with the keys in the order of the struct fields; the layout, the
  escaping of strings and the digits of a number are left out, and the indented form
  differs from the compact one in layout only. The encoder rejects a float that is NaN or
  infinite with an \<open>UnsupportedValueError\<close>, and stops at the first error.
\<close>

datatype json =
  JNull | JBool bool | JInt int | JFloat float64 | JString string | JArray "json list"
  | JObject "(string \<times> json) list"

datatype marshalError = UnsupportedValue float64

definition marshalValue :: "Value \<Rightarrow> marshalError + json" where
  "marshalValue v =
     (case v of
        VNull \<Rightarrow> Inr JNull
      | VBool b \<Rightarrow> Inr (JBool b)
      | VInt n \<Rightarrow> Inr (JInt n)
      | VFloat x \<Rightarrow>
          (case x of FNum neg m b e \<Rightarrow> Inr (JFloat x) | _ \<Rightarrow> Inl (UnsupportedValue x))
      | VStr s \<Rightarrow> Inr (JString s))"

fun marshalAll :: "('a \<Rightarrow> marshalError + json) \<Rightarrow> 'a list \<Rightarrow> marshalError + json list" where
  "marshalAll f [] = Inr []"
| "marshalAll f (x # xs) =
     (case f x of
        Inl e \<Rightarrow> Inl e
      | Inr j \<Rightarrow> (case marshalAll f xs of Inl e \<Rightarrow> Inl e | Inr js \<Rightarrow> Inr (j # js)))"

definition marshalRow :: "Value list \<Rightarrow> marshalError + json" where
  "marshalRow row = (case marshalAll marshalValue row of Inl e \<Rightarrow> Inl e | Inr js \<Rightarrow> Inr (JArray js))"

definition marshalColumn :: "Column \<Rightarrow> json" where
  "marshalColumn c = JObject [(''name'', JString (colName c)), (''type'', JString (colType c))]"

definition marshalTable :: "Table \<Rightarrow> marshalError + json" where
  "marshalTable t =
     (case marshalAll marshalRow (Rows t) of
        Inl e \<Rightarrow> Inl e
      | Inr rows \<Rightarrow>
          Inr (JObject [(''name'', JString (Name t)),
                        (''columns'', JArray (map marshalColumn (Columns t))),
                        (''rows'', JArray rows)]))"

definition Marshal :: "Document \<Rightarrow> marshalError + json" where
  "Marshal doc =
     (case marshalAll marshalTable (Tables doc) of
        Inl e \<Rightarrow> Inl e
      | Inr ts \<Rightarrow> Inr (JObject [(''tables'', JArray ts)]))"

definition MarshalIndent :: "Document \<Rightarrow> marshalError + json" where
  "MarshalIndent doc = Marshal doc"

definition ToJSON :: "Document \<Rightarrow> bool \<Rightarrow> marshalError + json" where
  "ToJSON doc pretty =
     (case (if pretty then MarshalIndent doc else Marshal doc) of
        Inl err \<Rightarrow> Inl err
      | Inr data \<Rightarrow> Inr data)"

section \<open>The lexer\<close>

text \<open>
  The lexer is built by \<open>lexer.MustSimple\<close> from a list of named regular expressions. At
  each position the rules are tried in the order of the list and the first one that matches
  a non-empty prefix of the remaining input gives the next token; when none matches, lexing
  fails. Each rule is written here as a function giving the length of the prefix it
  matches, following Go's leftmost-first matching of the expression.
\<close>

datatype tokenType =
  TComment | TTableMarker | TSchemaMarker | TTypeName | TString | TNumber | TIdent | TPunct
  | TNewline | TWhitespace

type_synonym token = "tokenType \<times> string"

text \<open>\<open>Comment\<close>: \<open>#[^!@][^\n]*\<close>. A negated class matches a line feed too.\<close>

definition matchComment :: "string \<Rightarrow> nat option" where
  "matchComment s =
     (case s of
        a # c # rest \<Rightarrow>
          if a = CHR ''#'' \<and> c \<noteq> CHR ''!'' \<and> c \<noteq> CHR ''@''
          then Some (2 + length (takeWhile (\<lambda>x. x \<noteq> CHR 0x0A) rest))
          else None
      | _ \<Rightarrow> None)"

definition matchLiteral :: "string \<Rightarrow> string \<Rightarrow> nat option" where
  "matchLiteral p s = (if take (length p) s = p then Some (length p) else None)"

text \<open>
  \<open>TypeName\<close>: \<open>(?i)(i8|i16|...|enum)\b\<close>. Under \<open>(?i)\<close> a letter matches either case,
  and \<open>s\<close> also matches U+017F, its third case-folded form.
\<close>

definition typeNames :: "string list" where
  "typeNames =
     [''i8'', ''i16'', ''i32'', ''i64'', ''int'', ''u8'', ''u16'', ''u32'', ''u64'', ''uint'',
      ''f32'', ''f64'', ''float'', ''bool'', ''str'', ''text'', ''date'', ''time'', ''datetime'',
      ''timestamp'', ''decimal'', ''ref'', ''enum'']"

fun matchFold :: "string \<Rightarrow> string \<Rightarrow> nat option" where
  "matchFold [] s = Some 0"
| "matchFold (k # ks) [] = None"
| "matchFold (k # ks) (c # cs) =
     (if lowerChar c = k then map_option Suc (matchFold ks cs)
      else if k = CHR ''s'' \<and> c = CHR 0xC5 \<and> take 1 cs = [CHR 0xBF]
      then map_option (\<lambda>n. n + 2) (matchFold ks (drop 1 cs))
      else None)"

definition isWordChar :: "char \<Rightarrow> bool" where
  "isWordChar c = (isDigit c \<or> isUpper c \<or> isLower c \<or> c = CHR ''_'')"

definition wordBoundary :: "string \<Rightarrow> bool" where
  "wordBoundary r = (case r of [] \<Rightarrow> True | c # _ \<Rightarrow> \<not> isWordChar c)"

fun matchAlternatives :: "string list \<Rightarrow> string \<Rightarrow> nat option" where
  "matchAlternatives [] s = None"
| "matchAlternatives (k # ks) s =
     (case matchFold k s of
        Some n \<Rightarrow> if wordBoundary (drop n s) then Some n else matchAlternatives ks s
      | None \<Rightarrow> matchAlternatives ks s)"

definition matchTypeName :: "string \<Rightarrow> nat option" where
  "matchTypeName s = matchAlternatives typeNames s"

text \<open>
  \<open>String\<close>: \<open>"(?:[^"]|"")*"\<close>. \<open>stringBody\<close> scans what follows the opening quote and
  gives the length up to and including the closing quote: the repetition takes as much as
  it can and gives a doubled quote back when no closing quote follows.
\<close>

fun stringBody :: "string \<Rightarrow> nat option" where
  "stringBody [] = None"
| "stringBody [c] = (if c = CHR 0x22 then Some 1 else None)"
| "stringBody (c # d # cs) =
     (if c \<noteq> CHR 0x22 then map_option Suc (stringBody (d # cs))
      else if d = CHR 0x22 then
        (case stringBody cs of Some n \<Rightarrow> Some (n + 2) | None \<Rightarrow> Some 1)
      else Some 1)"

definition matchString :: "string \<Rightarrow> nat option" where
  "matchString s =
     (case s of
        c # cs \<Rightarrow> if c = CHR 0x22 then map_option Suc (stringBody cs) else None
      | [] \<Rightarrow> None)"

text \<open>\<open>Number\<close>: \<open>-?\d+(?:\.\d+)?\<close>.\<close>

definition matchNumber :: "string \<Rightarrow> nat option" where
  "matchNumber s =
     (let sign = (if take 1 s = ''-'' then 1 else 0);
          r = drop sign s;
          n1 = length (takeWhile isDigit r)
      in if n1 = 0 then None
         else
           (case drop n1 r of
              c # r3 \<Rightarrow>
                if c = CHR ''.'' \<and> takeWhile isDigit r3 \<noteq> []
                then Some (sign + n1 + 1 + length (takeWhile isDigit r3))
                else Some (sign + n1)
            | [] \<Rightarrow> Some (sign + n1)))"

text \<open>
  \<open>Ident\<close>: a first code point that is an ASCII letter, an underscore or in one of the
  listed ranges, then code points that may also be ASCII digits. \<open>decodeRune\<close> reads one
  UTF-8 code point and its width; a byte that starts no valid encoding is U+FFFD, of
  width 1, as in Go.
\<close>

definition isCont :: "char \<Rightarrow> bool" where
  "isCont c = (0x80 \<le> byte c \<and> byte c \<le> 0xBF)"

definition decodeRune :: "string \<Rightarrow> (int \<times> nat) option" where
  "decodeRune s =
     (case s of
        [] \<Rightarrow> None
      | c0 # r0 \<Rightarrow>
          (let b0 = byte c0 in
           if b0 < 0x80 then Some (b0, 1)
           else if 0xC2 \<le> b0 \<and> b0 \<le> 0xDF then
             (case r0 of
                c1 # _ \<Rightarrow>
                  if isCont c1 then Some ((b0 - 0xC0) * 64 + (byte c1 - 0x80), 2)
                  else Some (0xFFFD, 1)
              | [] \<Rightarrow> Some (0xFFFD, 1))
           else if 0xE0 \<le> b0 \<and> b0 \<le> 0xEF then
             (case r0 of
                c1 # c2 # _ \<Rightarrow>
                  if (if b0 = 0xE0 then 0xA0 else 0x80) \<le> byte c1 \<and>
                     byte c1 \<le> (if b0 = 0xED then 0x9F else 0xBF) \<and> isCont c2
                  then Some ((b0 - 0xE0) * 4096 + (byte c1 - 0x80) * 64 + (byte c2 - 0x80), 3)
                  else Some (0xFFFD, 1)
              | _ \<Rightarrow> Some (0xFFFD, 1))
           else if 0xF0 \<le> b0 \<and> b0 \<le> 0xF4 then
             (case r0 of
                c1 # c2 # c3 # _ \<Rightarrow>
                  if (if b0 = 0xF0 then 0x90 else 0x80) \<le> byte c1 \<and>
                     byte c1 \<le> (if b0 = 0xF4 then 0x8F else 0xBF) \<and> isCont c2 \<and> isCont c3
                  then Some ((b0 - 0xF0) * 262144 + (byte c1 - 0x80) * 4096 +
                             (byte c2 - 0x80) * 64 + (byte c3 - 0x80), 4)
                  else Some (0xFFFD, 1)
              | _ \<Rightarrow> Some (0xFFFD, 1))
           else Some (0xFFFD, 1)))"

definition identStart :: "int \<Rightarrow> bool" where
  "identStart cp =
     ((0x61 \<le> cp \<and> cp \<le> 0x7A) \<or> (0x41 \<le> cp \<and> cp \<le> 0x5A) \<or> cp = 0x5F \<or>
      (0x00C0 \<le> cp \<and> cp \<le> 0x024F) \<or> (0x1E00 \<le> cp \<and> cp \<le> 0x1EFF) \<or>
      (0x0400 \<le> cp \<and> cp \<le> 0x04FF) \<or> (0x0370 \<le> cp \<and> cp \<le> 0x03FF) \<or>
      (0x4E00 \<le> cp \<and> cp \<le> 0x9FFF) \<or> (0x3040 \<le> cp \<and> cp \<le> 0x309F) \<or>
      (0x30A0 \<le> cp \<and> cp \<le> 0x30FF))"

definition identPart :: "int \<Rightarrow> bool" where
  "identPart cp = (identStart cp \<or> (0x30 \<le> cp \<and> cp \<le> 0x39))"

function identRest :: "string \<Rightarrow> nat" where
  "identRest s =
     (case decodeRune s of
        Some (cp, w) \<Rightarrow>
          if identPart cp \<and> 0 < w \<and> w \<le> length s then w + identRest (drop w s) else 0
      | None \<Rightarrow> 0)"
  by pat_completeness auto
termination
  by (relation "measure length") auto

declare identRest.simps [simp del]

definition matchIdent :: "string \<Rightarrow> nat option" where
  "matchIdent s =
     (case decodeRune s of
        Some (cp, w) \<Rightarrow> if identStart cp then Some (w + identRest (drop w s)) else None
      | None \<Rightarrow> None)"

text \<open>
  \<open>Punct\<close>: one character of the class \<open>[-[!@#$%^&*()+_={}\|:;"'<,>.?/]\<close>, or else the
  two characters \<open>[]\<close>. The class holds no closing bracket.
\<close>

definition punctClass :: string where
  "punctClass =
     [CHR ''-'', CHR ''['', CHR ''!'', CHR ''@'', CHR ''#'', CHR ''$'', CHR ''%'', CHR ''^'',
      CHR ''&'', CHR ''*'', CHR ''('', CHR '')'', CHR ''+'', CHR ''_'', CHR ''='', CHR ''{'',
      CHR ''}'', CHR ''|'', CHR '':'', CHR '';'', CHR 0x22, CHR 0x27, CHR ''<'', CHR '','',
      CHR ''>'', CHR ''.'', CHR ''?'', CHR ''/'']"

definition matchPunct :: "string \<Rightarrow> nat option" where
  "matchPunct s =
     (case s of
        c # _ \<Rightarrow> if List.member punctClass c then Some 1 else matchLiteral ''[]'' s
      | [] \<Rightarrow> None)"

text \<open>\<open>Newline\<close>: \<open>\r?\n\<close>; \<open>whitespace\<close>: \<open>[ \t]+\<close>.\<close>

definition matchNewline :: "string \<Rightarrow> nat option" where
  "matchNewline s =
     (case matchLiteral [CHR 0x0D, CHR 0x0A] s of
        Some n \<Rightarrow> Some n
      | None \<Rightarrow> matchLiteral [CHR 0x0A] s)"

definition matchWhitespace :: "string \<Rightarrow> nat option" where
  "matchWhitespace s =
     (let n = length (takeWhile (\<lambda>c. c = CHR '' '' \<or> c = CHR 0x09) s)
      in if n = 0 then None else Some n)"

definition lexRules :: "(tokenType \<times> (string \<Rightarrow> nat option)) list" where
  "lexRules =
     [(TComment, matchComment),
      (TTableMarker, matchLiteral ''#!''),
      (TSchemaMarker, matchLiteral ''#@''),
      (TTypeName, matchTypeName),
      (TString, matchString),
      (TNumber, matchNumber),
      (TIdent, matchIdent),
      (TPunct, matchPunct),
      (TNewline, matchNewline),
      (TWhitespace, matchWhitespace)]"

fun firstRule :: "(tokenType \<times> (string \<Rightarrow> nat option)) list \<Rightarrow> string \<Rightarrow> (tokenType \<times> nat) option" where
  "firstRule [] s = None"
| "firstRule ((ty, m) # rs) s =
     (case m s of Some n \<Rightarrow> Some (ty, n) | None \<Rightarrow> firstRule rs s)"

datatype parseError = LexError | SyntaxError

text \<open>
  The token loop. A rule that matches the empty string is an error of the lexer; none of
  the rules above does.
\<close>

function lexTokens :: "string \<Rightarrow> parseError + token list" where
  "lexTokens s =
     (if s = [] then Inr []
      else
        (case firstRule lexRules s of
           None \<Rightarrow> Inl LexError
         | Some (ty, n) \<Rightarrow>
             if n = 0 then Inl LexError
             else
               (case lexTokens (drop n s) of
                  Inl e \<Rightarrow> Inl e
                | Inr ts \<Rightarrow> Inr ((ty, take n s) # ts))))"
  by pat_completeness auto
termination
  by (relation "measure length") auto

declare lexTokens.simps [simp del]

section \<open>The grammar rules\<close>

text \<open>
  Participle derives the grammar from the tags of the parse-tree structs and applies it to
  the tokens with the \<open>whitespace\<close> tokens elided. In a tag, a quoted literal matches a
  token whose text is exactly the literal, whatever its type; a name matches a token of
  that type; \<open>@\<close> captures the matched text; \<open>*\<close> and \<open>?\<close> take as much as they can.
  The rules of the table header, the schema line and the column definition are given
  here as functions from the tokens to the rule's result and the tokens left, \<open>None\<close>
  when the rule does not match at the head of the tokens.
\<close>

definition elide :: "token list \<Rightarrow> token list" where
  "elide ts = filter (\<lambda>t. fst t \<noteq> TWhitespace) ts"

definition isLit :: "string \<Rightarrow> token \<Rightarrow> bool" where
  "isLit v t = (snd t = v)"

definition isType :: "tokenType \<Rightarrow> token \<Rightarrow> bool" where
  "isType ty t = (fst t = ty)"

text \<open>
  \<open>columnDef\<close>: \<open>@Ident ':'\<close>, \<open>@TypeName\<close>,
  \<open>( '(' @( Ident | Number ) ( ( ',' | '.' | '|' ) @( Ident | Number ) )* ')' )?\<close>,
  \<open>@( '[' ']' )?\<close>, \<open>@'?'?\<close>. The array suffix comes before the nullable suffix.
\<close>

fun parseParamTail :: "token list \<Rightarrow> string list \<times> token list" where
  "parseParamTail (s # p # r) =
     (if (isLit '','' s \<or> isLit ''.'' s \<or> isLit ''|'' s) \<and> (isType TIdent p \<or> isType TNumber p)
      then (let psr = parseParamTail r in (snd p # fst psr, snd psr))
      else ([], s # p # r))"
| "parseParamTail ts = ([], ts)"

definition parseParams :: "token list \<Rightarrow> string list \<times> token list" where
  "parseParams ts =
     (case ts of
        b # p # r \<Rightarrow>
          if isLit ''('' b \<and> (isType TIdent p \<or> isType TNumber p) then
            (let psr = parseParamTail r
             in case snd psr of
                  c # r2 \<Rightarrow> if isLit '')'' c then (snd p # fst psr, r2) else ([], ts)
                | [] \<Rightarrow> ([], ts))
          else ([], ts)
      | _ \<Rightarrow> ([], ts))"

definition parseArray :: "token list \<Rightarrow> bool \<times> token list" where
  "parseArray ts =
     (case ts of
        a # b # r \<Rightarrow> if isLit ''['' a \<and> isLit '']'' b then (True, r) else (False, ts)
      | _ \<Rightarrow> (False, ts))"

definition parseNullable :: "token list \<Rightarrow> bool \<times> token list" where
  "parseNullable ts =
     (case ts of
        q # r \<Rightarrow> if isLit ''?'' q then (True, r) else (False, ts)
      | [] \<Rightarrow> (False, ts))"

definition parseColumnDef :: "token list \<Rightarrow> (columnDef \<times> token list) option" where
  "parseColumnDef ts =
     (case ts of
        n # c # ty # r \<Rightarrow>
          if isType TIdent n \<and> isLit '':'' c \<and> isType TTypeName ty then
            (let pr = parseParams r; ar = parseArray (snd pr); qr = parseNullable (snd ar)
             in Some (\<lparr>cdName = snd n, TypeName = snd ty, Params = fst pr, Array = fst ar,
                       Nullable = fst qr\<rparr>, snd qr))
          else None
      | _ \<Rightarrow> None)"

lemma parseParamTail_length: "length (snd (parseParamTail ts)) \<le> length ts"
  by (induction ts rule: parseParamTail.induct) (auto simp: Let_def)

lemma parseParams_length: "length (snd (parseParams ts)) \<le> length ts"
proof (cases ts)
  case Nil
  then show ?thesis by (simp add: parseParams_def)
next
  case (Cons b ts1)
  show ?thesis
  proof (cases ts1)
    case Nil
    with Cons show ?thesis by (simp add: parseParams_def)
  next
    case (Cons p r)
    have "length (snd (parseParamTail r)) \<le> length r" by (rule parseParamTail_length)
    with Cons \<open>ts = b # ts1\<close> show ?thesis
      by (auto simp: parseParams_def Let_def split: list.splits)
  qed
qed

lemma parseArray_length: "length (snd (parseArray ts)) \<le> length ts"
  by (simp add: parseArray_def split: list.splits)

lemma parseNullable_length: "length (snd (parseNullable ts)) \<le> length ts"
  by (simp add: parseNullable_def split: list.splits)

lemma parseColumnDef_length:
  assumes "parseColumnDef ts = Some (c, r)"
  shows "length r < length ts"
proof -
  from assms obtain n k ty r0 where ts: "ts = n # k # ty # r0"
    and r: "r = snd (parseNullable (snd (parseArray (snd (parseParams r0)))))"
    by (auto simp: parseColumnDef_def Let_def split: list.splits if_splits)
  have "length r \<le> length (snd (parseArray (snd (parseParams r0))))"
    unfolding r by (rule parseNullable_length)
  also have "\<dots> \<le> length (snd (parseParams r0))" by (rule parseArray_length)
  also have "\<dots> \<le> length r0" by (rule parseParams_length)
  finally show ?thesis using ts by simp
qed

text \<open>\<open>schemaDef\<close>: \<open>'#' '@' @@ ( ',' @@ )* Newline\<close>.\<close>

function parseColumnDefs :: "token list \<Rightarrow> columnDef list \<times> token list" where
  "parseColumnDefs ts =
     (case ts of
        t # r \<Rightarrow>
          if isLit '','' t then
            (case parseColumnDef r of
               Some (c, r1) \<Rightarrow> (let csr = parseColumnDefs r1 in (c # fst csr, snd csr))
             | None \<Rightarrow> ([], ts))
          else ([], ts)
      | [] \<Rightarrow> ([], []))"
  by pat_completeness auto
termination
proof (relation "measure length")
  show "wf (measure length)" by simp
next
  fix ts :: "token list" and t r x c r1
  assume "ts = t # r" "parseColumnDef r = Some x" "(c, r1) = x"
  then have "parseColumnDef r = Some (c, r1)" by simp
  then have "length r1 < length r" by (rule parseColumnDef_length)
  with \<open>ts = t # r\<close> show "(r1, ts) \<in> measure length" by simp
qed

declare parseColumnDefs.simps [simp del]

definition parseSchemaDef :: "token list \<Rightarrow> (schemaDef \<times> token list) option" where
  "parseSchemaDef ts =
     (case ts of
        h # a # r \<Rightarrow>
          if isLit ''#'' h \<and> isLit ''@'' a then
            (case parseColumnDef r of
               Some (c, r1) \<Rightarrow>
                 (let csr = parseColumnDefs r1
                  in case snd csr of
                       n # r3 \<Rightarrow>
                         if isType TNewline n then Some (\<lparr>sdColumns = c # fst csr\<rparr>, r3)
                         else None
                     | [] \<Rightarrow> None)
             | None \<Rightarrow> None)
          else None
      | _ \<Rightarrow> None)"

text \<open>\<open>tableHeader\<close>: \<open>'#' '!' @Ident Newline\<close>.\<close>

definition parseTableHeader :: "token list \<Rightarrow> (tableHeader \<times> token list) option" where
  "parseTableHeader ts =
     (case ts of
        h # b # i # n # r \<Rightarrow>
          if isLit ''#'' h \<and> isLit ''!'' b \<and> isType TIdent i \<and> isType TNewline n
          then Some (\<lparr>hdrName = snd i\<rparr>, r)
          else None
      | _ \<Rightarrow> None)"


section \<open>Building the parser\<close>

text \<open>
  The package builds its parser once, in the initialisation of the package-level variable
  \<open>parser = participle.MustBuild[file](...)\<close>. Participle reads the \<open>parser:"..."\<close>
  tags of \<open>file\<close> and of every struct reachable from it as grammar expressions, the tags
  of the fields of one struct following each other as one expression, and \<open>MustBuild\<close>
  panics when a tag cannot be read.

  A tag is first cut into tokens by Go's \<open>text/scanner\<close>: a quoted literal, a name, or a
  single punctuation character; blanks separate tokens.
\<close>

datatype tagToken = TagChar string | TagIdent string | TagPunct char

definition isTagLetter :: "char \<Rightarrow> bool" where
  "isTagLetter c = (isUpper c \<or> isLower c \<or> c = CHR ''_'')"

definition isTagIdentChar :: "char \<Rightarrow> bool" where
  "isTagIdentChar c = (isTagLetter c \<or> isDigit c)"

definition notQuote :: "char \<Rightarrow> bool" where
  "notQuote c = (c \<noteq> CHR 0x27)"

function tagLex :: "string \<Rightarrow> tagToken list" where
  "tagLex [] = []"
| "tagLex (c # cs) =
     (if c = CHR '' '' then tagLex cs
      else if c = CHR 0x27 then
        TagChar (takeWhile notQuote cs) # tagLex (drop 1 (dropWhile notQuote cs))
      else if isTagLetter c then
        TagIdent (c # takeWhile isTagIdentChar cs) # tagLex (dropWhile isTagIdentChar cs)
      else TagPunct c # tagLex cs)"
  by pat_completeness auto
termination
proof (relation "measure length", goal_cases)
  case 1
  show ?case by simp
next
  case (2 c cs)
  show ?case by simp
next
  case (3 c cs)
  have "length (drop 1 (dropWhile notQuote cs)) \<le> length (dropWhile notQuote cs)" by simp
  also have "\<dots> \<le> length cs" by (rule length_dropWhile_le)
  finally show ?case by simp
next
  case (4 c cs)
  have "length (dropWhile isTagIdentChar cs) \<le> length cs" by (rule length_dropWhile_le)
  then show ?case by simp
next
  case (5 c cs)
  show ?case by simp
qed

text \<open>
  The grammar expression of a tag. A term is a capture \<open>@\<close> of a term, the capture \<open>@@\<close>
  of a struct, a quoted literal, a token name, a negation \<open>!\<close> or \<open>~\<close> of a term, an
  optional group \<open>[ ... ]\<close> or a group \<open>( ... )\<close>, and may carry one of the modifiers
  \<open>*\<close>, \<open>+\<close>, \<open>?\<close>, \<open>!\<close>; a sequence is a run of terms; an expression is one or more
  non-empty sequences separated by \<open>|\<close>. Lookahead groups, \<open>{ ... }\<close> and literals with a
  token type do not occur in the tags of this package and are left out.
\<close>

datatype groupMode = MatchOnce | MatchZeroOrOne | MatchZeroOrMore | MatchOneOrMore | MatchNonEmpty

datatype node =
    Literal string
  | Reference string
  | Strct
  | Capture node
  | Negation node
  | Group node groupMode
  | Sequence "node list"
  | Disjunction "node list"

text \<open>
  The errors of the build. \<open>UnexpectedToken\<close> is Participle's \<open>unexpected token\<close>.
  \<open>OutOfFuel\<close> is not an error of Participle: the functions below recurse on a counter,
  and \<open>parseStruct\<close> starts them with more than they use on any tag of this package.
\<close>

datatype buildError =
    UnexpectedToken tagToken
  | UnexpectedEnd
  | Expected char
  | EmptyAlternative
  | OutOfFuel

definition nextIs :: "char \<Rightarrow> tagToken list \<Rightarrow> bool" where
  "nextIs c ts = (case ts of t # r \<Rightarrow> t = TagPunct c | [] \<Rightarrow> False)"

text \<open>A sequence or a disjunction of one node is that node.\<close>

definition sequenceOf :: "node list \<Rightarrow> node" where
  "sequenceOf ns = (case ns of [n] \<Rightarrow> n | _ \<Rightarrow> Sequence ns)"

definition disjunctionOf :: "node list \<Rightarrow> node" where
  "disjunctionOf ns = (case ns of [n] \<Rightarrow> n | _ \<Rightarrow> Disjunction ns)"

text \<open>A modifier sets the mode of a plain group and wraps any other term in a group.\<close>

definition withMode :: "node \<Rightarrow> groupMode \<Rightarrow> node" where
  "withMode n mode =
     (case n of
        Group e MatchOnce \<Rightarrow> Group e mode
      | _ \<Rightarrow> Group n mode)"

definition parseModifier :: "node \<Rightarrow> tagToken list \<Rightarrow> node \<times> tagToken list" where
  "parseModifier n ts =
     (if nextIs (CHR ''*'') ts then (withMode n MatchZeroOrMore, tl ts)
      else if nextIs (CHR ''+'') ts then (withMode n MatchOneOrMore, tl ts)
      else if nextIs (CHR ''?'') ts then (withMode n MatchZeroOrOne, tl ts)
      else if nextIs (CHR ''!'') ts then (withMode n MatchNonEmpty, tl ts)
      else (n, ts))"

text \<open>
  The operand of a capture or of a negation: the term that was read, wrapped; when none
  was read, the token in its place is unexpected.
\<close>

definition operand ::
  "buildError + node option \<times> tagToken list \<Rightarrow> (node \<Rightarrow> node) \<Rightarrow>
   buildError + node option \<times> tagToken list" where
  "operand res wrap =
     (case res of
        Inl e \<Rightarrow> Inl e
      | Inr (Some n, r) \<Rightarrow> Inr (Some (wrap n), r)
      | Inr (None, t # r) \<Rightarrow> Inl (UnexpectedToken t)
      | Inr (None, []) \<Rightarrow> Inl UnexpectedEnd)"

text \<open>The end of a group: the closing bracket must follow the expression.\<close>

definition closing ::
  "char \<Rightarrow> groupMode \<Rightarrow> buildError + node list \<times> tagToken list \<Rightarrow>
   buildError + node option \<times> tagToken list" where
  "closing c mode res =
     (case res of
        Inl e \<Rightarrow> Inl e
      | Inr (alts, r) \<Rightarrow>
          if nextIs c r then Inr (Some (Group (disjunctionOf alts) mode), tl r)
          else Inl (Expected c))"

text \<open>
  \<open>parseDisjunction\<close> gives the alternatives, \<open>parseSequence\<close> the terms of one
  alternative, \<open>parseTerm\<close> a term with its modifier and \<open>parseTermNoModifiers\<close> a term,
  \<open>None\<close> when the next token starts no term.
\<close>

fun parseDisjunction :: "nat \<Rightarrow> tagToken list \<Rightarrow> buildError + node list \<times> tagToken list"
  and parseSequence :: "nat \<Rightarrow> tagToken list \<Rightarrow> buildError + node list \<times> tagToken list"
  and parseTerm :: "nat \<Rightarrow> tagToken list \<Rightarrow> buildError + node option \<times> tagToken list"
  and parseTermNoModifiers ::
    "nat \<Rightarrow> tagToken list \<Rightarrow> buildError + node option \<times> tagToken list"
where
  "parseDisjunction 0 ts = Inl OutOfFuel"
| "parseDisjunction (Suc k) ts =
     (case parseSequence k ts of
        Inl e \<Rightarrow> Inl e
      | Inr (ns, r) \<Rightarrow>
          if ns = [] then Inl EmptyAlternative
          else if nextIs (CHR ''|'') r then
            (case parseDisjunction k (tl r) of
               Inl e \<Rightarrow> Inl e
             | Inr (alts, r') \<Rightarrow> Inr (sequenceOf ns # alts, r'))
          else Inr ([sequenceOf ns], r))"
| "parseSequence 0 ts = Inl OutOfFuel"
| "parseSequence (Suc k) ts =
     (case parseTerm k ts of
        Inl e \<Rightarrow> Inl e
      | Inr (None, r) \<Rightarrow> Inr ([], r)
      | Inr (Some n, r) \<Rightarrow>
          (case parseSequence k r of
             Inl e \<Rightarrow> Inl e
           | Inr (ns, r') \<Rightarrow> Inr (n # ns, r')))"
| "parseTerm 0 ts = Inl OutOfFuel"
| "parseTerm (Suc k) ts =
     (case parseTermNoModifiers k ts of
        Inl e \<Rightarrow> Inl e
      | Inr (None, r) \<Rightarrow> Inr (None, r)
      | Inr (Some n, r) \<Rightarrow> (let m = parseModifier n r in Inr (Some (fst m), snd m)))"
| "parseTermNoModifiers 0 ts = Inl OutOfFuel"
| "parseTermNoModifiers (Suc k) ts =
     (case ts of
        [] \<Rightarrow> Inr (None, [])
      | TagChar s # r \<Rightarrow> Inr (Some (Literal s), r)
      | TagIdent s # r \<Rightarrow> Inr (Some (Reference s), r)
      | TagPunct c # r \<Rightarrow>
          if c = CHR ''@'' then
            (if nextIs (CHR ''@'') r then Inr (Some (Capture Strct), tl r)
             else operand (parseTermNoModifiers k r) Capture)
          else if c = CHR ''!'' \<or> c = CHR ''~'' then operand (parseTermNoModifiers k r) Negation
          else if c = CHR ''['' then closing (CHR '']'') MatchZeroOrOne (parseDisjunction k r)
          else if c = CHR ''('' then closing (CHR '')'') MatchOnce (parseDisjunction k r)
          else Inr (None, ts))"

text \<open>
  The tags of one struct, read as one expression to their end. The counter starts at four
  times the number of tokens and four more; no struct of this package uses it up.
\<close>

definition parseStruct :: "string list \<Rightarrow> buildError + node" where
  "parseStruct tags =
     (let ts = concat (map tagLex tags)
      in case parseDisjunction (4 * length ts + 4) ts of
           Inl e \<Rightarrow> Inl e
         | Inr (alts, []) \<Rightarrow> Inr (disjunctionOf alts)
         | Inr (alts, t # r) \<Rightarrow> Inl (UnexpectedToken t))"

text \<open>The structs of the grammar and the tags of their fields, as the source has them.\<close>

definition grammarStructs :: "(string \<times> string list) list" where
  "grammarStructs =
     [(''file'', [''@@*'']),
      (''line'', [''  @@'', ''| @@'', ''| @@'', ''| @@'', ''| @Newline'']),
      (''comment'', ['''#' ( ![@!] @( ~Newline )* )? Newline'']),
      (''tableHeader'', ['''#' '!' @Ident Newline'']),
      (''schemaDef'', ['''#' '@' @@ ( ',' @@ )* Newline'']),
      (''columnDef'',
         [''@Ident ':'' @ [CHR 0x27],
          ''@TypeName'',
          ''( '(' @( Ident | Number ) ( ( ',' | '.' | '|' ) @( Ident | Number ) )* ')' )?'',
          ''@( '[' ']' )?'',
          ''@'?'?'']),
      (''dataRow'', [''@@ ( ',' @@ )* Newline'']),
      (''field'',
         [''  @String'',
          ''| @( Ident | Number | '.' | '-' | '@' | '_' | '/' | ':' | ~( ',' | Newline | '#' ) )*''])]"

type_synonym grammar = "(string \<times> node) list"

text \<open>\<open>MustBuild\<close>: every struct is read; the first that cannot be read is the panic.\<close>

fun MustBuild :: "(string \<times> string list) list \<Rightarrow> buildError + grammar" where
  "MustBuild [] = Inr []"
| "MustBuild ((name, tags) # rest) =
     (case parseStruct tags of
        Inl e \<Rightarrow> Inl e
      | Inr n \<Rightarrow>
          (case MustBuild rest of
             Inl e \<Rightarrow> Inl e
           | Inr g \<Rightarrow> Inr ((name, n) # g)))"

definition parser :: "buildError + grammar" where
  "parser = MustBuild grammarStructs"

text \<open>
  \<open>ParseString\<close> hands the input to the parser that was built and gives the tree to
  \<open>transform\<close>; an error of the parser is returned and no document. The package-level
  variables are initialised before any function of the package can be called, so when
  \<open>MustBuild\<close> panics no call of \<open>ParseString\<close> returns. What a parser that was built does
  with a grammar and an input is Participle's part; it is the parameter \<open>run\<close>.
\<close>

datatype 'a outcome = Panic buildError | Returned 'a

definition ParseString ::
  "(grammar \<Rightarrow> string \<Rightarrow> parseError + line list) \<Rightarrow> string \<Rightarrow> (parseError + Document) outcome" where
  "ParseString run input =
     (case parser of
        Inl e \<Rightarrow> Panic e
      | Inr g \<Rightarrow>
          Returned
            (case run g input of
               Inl e \<Rightarrow> Inl e
             | Inr ls \<Rightarrow> Inr (transform ls)))"
section \<open>The numeric patterns of the specification\<close>

text \<open>
  The specification's patterns \<open>-?digits\<close> and \<open>-?digits.digits\<close>, written from its words
  to be compared with what \<open>cleanField\<close> does, and the number such a text denotes.
\<close>

definition isDigits :: "string \<Rightarrow> bool" where
  "isDigits s = (s \<noteq> [] \<and> list_all isDigit s)"

definition stripMinus :: "string \<Rightarrow> string" where
  "stripMinus s = (case s of [] \<Rightarrow> [] | c # cs \<Rightarrow> if c = CHR ''-'' then cs else s)"

definition matchesInteger :: "string \<Rightarrow> bool" where
  "matchesInteger s = isDigits (stripMinus s)"

definition matchesDecimal :: "string \<Rightarrow> bool" where
  "matchesDecimal s =
     (let r = stripMinus s
      in isDigits (takeWhile isDigit r) \<and>
         (case dropWhile isDigit r of [] \<Rightarrow> False | c # d \<Rightarrow> c = CHR ''.'' \<and> isDigits d))"

fun decValue :: "string \<Rightarrow> int" where
  "decValue [] = 0"
| "decValue (c # cs) = digitVal c * 10 ^ length cs + decValue cs"

definition patternValue :: "string \<Rightarrow> int" where
  "patternValue s =
     (case s of [] \<Rightarrow> 0 | c # cs \<Rightarrow> if c = CHR ''-'' then - decValue cs else decValue s)"

text \<open>
  The texts that \<open>strconv.ParseInt\<close> reads: an optional sign \<open>+\<close> or \<open>-\<close>, then decimal
  digits; and the number such a text denotes.
\<close>

definition stripSign :: "string \<Rightarrow> string" where
  "stripSign s =
     (case s of [] \<Rightarrow> [] | c # cs \<Rightarrow> if c = CHR ''+'' \<or> c = CHR ''-'' then cs else s)"

definition matchesSignedInteger :: "string \<Rightarrow> bool" where
  "matchesSignedInteger s = isDigits (stripSign s)"

definition signedValue :: "string \<Rightarrow> int" where
  "signedValue s =
     (case s of
        [] \<Rightarrow> 0
      | c # cs \<Rightarrow> if c = CHR ''-'' then - decValue cs else decValue (stripSign s))"

text \<open>The texts that \<open>cleanField\<close> takes for null or a boolean.\<close>

definition keywordText :: "string \<Rightarrow> bool" where
  "keywordText v =
     (v = [] \<or> ToLower v = ''null'' \<or> ToLower v = ''true'' \<or> ToLower v = ''false'')"

section \<open>Lines without a table\<close>

definition orphanFree :: "line \<Rightarrow> bool" where
  "orphanFree l = (SchemaDef l = None \<and> DataRow l = None)"

section \<open>Example parse trees\<close>

definition exSchema :: line where
  "exSchema = \<lparr>Comment = None, TableHeader = None,
     SchemaDef = Some \<lparr>sdColumns = [\<lparr>cdName = ''id'', TypeName = ''uint'', Params = [], Array = False, Nullable = False\<rparr>]\<rparr>,
     DataRow = None, EmptyLine = None\<rparr>"

definition exRow :: line where
  "exRow = \<lparr>Comment = None, TableHeader = None, SchemaDef = None,
     DataRow = Some \<lparr>Fields = [\<lparr>Quoted = None, Unquoted = Some ''1''\<rparr>]\<rparr>, EmptyLine = None\<rparr>"

definition exHeader :: line where
  "exHeader = \<lparr>Comment = None, TableHeader = Some \<lparr>hdrName = ''T''\<rparr>, SchemaDef = None,
     DataRow = None, EmptyLine = None\<rparr>"

definition headerLine :: "string \<Rightarrow> line" where
  "headerLine name = \<lparr>Comment = None, TableHeader = Some \<lparr>hdrName = name\<rparr>, SchemaDef = None,
     DataRow = None, EmptyLine = None\<rparr>"

section \<open>The scan of a run of digits\<close>

text \<open>
  What \<open>mantLoop\<close> does to its state over a run of decimal digits: the digit branch of
  its loop, repeated.
\<close>

fun digitsStep :: "rfState \<Rightarrow> string \<Rightarrow> rfState" where
  "digitsStep st [] = st"
| "digitsStep st (c # cs) =
     digitsStep
       (if c = CHR ''0'' \<and> nd st = 0 then st\<lparr>sawdigits := True, dp := dp st - 1\<rparr>
        else st\<lparr>sawdigits := True, nd := nd st + 1, mantissa := mantissa st * 10 + digitVal c\<rparr>)
       cs"

section \<open>Names in source order\<close>






section \<open>Documents that can be serialized\<close>

definition finiteValue :: "Value \<Rightarrow> bool" where
  "finiteValue v = (case v of VFloat x \<Rightarrow> (case x of FNum neg m b e \<Rightarrow> True | _ \<Rightarrow> False) | _ \<Rightarrow> True)"

definition finiteDocument :: "Document \<Rightarrow> bool" where
  "finiteDocument doc = list_all (\<lambda>t. list_all (list_all finiteValue) (Rows t)) (Tables doc)"

definition exNaNRow :: line where
  "exNaNRow = \<lparr>Comment = None, TableHeader = None, SchemaDef = None,
     DataRow = Some \<lparr>Fields = [\<lparr>Quoted = None, Unquoted = Some ''NaN''\<rparr>]\<rparr>, EmptyLine = None\<rparr>"

definition rowOf :: "string \<Rightarrow> line" where
  "rowOf u = \<lparr>Comment = None, TableHeader = None, SchemaDef = None,
     DataRow = Some \<lparr>Fields = [\<lparr>Quoted = None, Unquoted = Some u\<rparr>]\<rparr>, EmptyLine = None\<rparr>"

section \<open>Reading a type back\<close>

text \<open>
  The specification's \<open>resolve\<close>: the column rule applied to the tokens of a column
  definition with the given type text, which must be read to its end.
\<close>

definition resolveType :: "string \<Rightarrow> parseError + columnDef" where
  "resolveType s =
     (case lexTokens (''c:'' @ s) of
        Inl e \<Rightarrow> Inl e
      | Inr ts \<Rightarrow>
          (case parseColumnDef (elide ts) of
             Some (col, []) \<Rightarrow> Inr col
           | _ \<Rightarrow> Inl SyntaxError))"

definition descriptor :: "string \<Rightarrow> string list \<Rightarrow> bool \<Rightarrow> bool \<Rightarrow> columnDef" where
  "descriptor ty ps arr nul =
     \<lparr>cdName = ''c'', TypeName = ty, Params = ps, Array = arr, Nullable = nul\<rparr>"

section \<open>Identifiers as code points\<close>



section \<open>Where a token \<open>#\<close> can stand\<close>

text \<open>A token list in which a token with the text \<open>#\<close> can only be the last one.\<close>

fun hashOnlyLast :: "token list \<Rightarrow> bool" where
  "hashOnlyLast [] = True"
| "hashOnlyLast [t] = True"
| "hashOnlyLast (t # u # r) = (snd t \<noteq> ''#'' \<and> hashOnlyLast (u # r))"

section \<open>Parsing numbers\<close>

lemma digitsValue_digits:
  "list_all isDigit ds \<Longrightarrow> digitsValue acc ds = Some (acc * 10 ^ length ds + decValue ds)"
  by (induction ds arbitrary: acc) (simp_all add: algebra_simps)

lemma isDigit_not_sign: "isDigit c \<Longrightarrow> c \<noteq> CHR ''-'' \<and> c \<noteq> CHR ''+'' \<and> c \<noteq> CHR ''.'' \<and> c \<noteq> CHR ''_''"
  by (auto simp: isDigit_def byte_def)

lemma ParseUint_digits: "isDigits ds \<Longrightarrow> ParseUint ds = Inr (decValue ds)"
  by (simp add: ParseUint_def isDigits_def digitsValue_digits)

lemma digitVal_nonneg: "isDigit c \<Longrightarrow> 0 \<le> digitVal c \<and> digitVal c \<le> 9"
  by (simp add: isDigit_def digitVal_def)

lemma decValue_bounds: "list_all isDigit ds \<Longrightarrow> 0 \<le> decValue ds \<and> decValue ds < 10 ^ length ds"
proof (induction ds)
  case Nil
  then show ?case by simp
next
  case (Cons c cs)
  then have c: "0 \<le> digitVal c" "digitVal c \<le> 9" and ih: "0 \<le> decValue cs" "decValue cs < 10 ^ length cs"
    by (simp_all add: digitVal_nonneg)
  have m: "digitVal c * 10 ^ length cs \<le> 9 * 10 ^ length cs"
    using c by (simp add: mult_right_mono)
  have z: "0 \<le> digitVal c * 10 ^ length cs" using c by simp
  have "decValue (c # cs) = digitVal c * 10 ^ length cs + decValue cs" by simp
  moreover have "(10::int) ^ length (c # cs) = 10 * 10 ^ length cs" by simp
  ultimately show ?case using m z ih by linarith
qed

lemma ParseInt_pattern:
  assumes "matchesInteger v"
  shows "ParseInt v =
           (if - (2 ^ 63) \<le> patternValue v \<and> patternValue v < 2 ^ 63
            then Inr (patternValue v) else Inl ErrRange)"
proof (cases v)
  case Nil
  with assms show ?thesis by (simp add: matchesInteger_def stripMinus_def isDigits_def)
next
  case (Cons c cs)
  show ?thesis
  proof (cases "c = CHR ''-''")
    case True
    with Cons assms have d: "isDigits cs" by (simp add: matchesInteger_def stripMinus_def)
    then have "0 \<le> decValue cs" using decValue_bounds by (simp add: isDigits_def)
    with True Cons d show ?thesis
      by (auto simp: ParseInt_def Let_def ParseUint_digits patternValue_def)
  next
    case False
    with Cons assms have d: "isDigits v" by (simp add: matchesInteger_def stripMinus_def)
    then have "isDigit c" using Cons by (simp add: isDigits_def)
    then have np: "c \<noteq> CHR ''+''" using isDigit_not_sign by blast
    have "0 \<le> decValue v" using d decValue_bounds by (simp add: isDigits_def)
    with False Cons d np show ?thesis
      by (auto simp: ParseInt_def Let_def ParseUint_digits patternValue_def)
  qed
qed

lemma mantLoop_digits:
  "list_all isDigit ds \<Longrightarrow> mantLoop 10 st (ds @ rest) = mantLoop 10 (digitsStep st ds) rest"
proof (induction ds arbitrary: st)
  case Nil
  then show ?case by simp
next
  case (Cons c cs)
  then have d: "isDigit c" and r: "list_all isDigit cs" by simp_all
  from d have n: "c \<noteq> CHR ''_''" "c \<noteq> CHR ''.''" using isDigit_not_sign by blast+
  show ?case using d n Cons.IH [OF r] by simp
qed

lemma digitsStep_flags:
  "underscores (digitsStep st ds) = underscores st \<and> sawdot (digitsStep st ds) = sawdot st"
  by (induction ds arbitrary: st) simp_all

lemma digitsStep_sawdigits:
  "ds \<noteq> [] \<or> sawdigits st \<Longrightarrow> sawdigits (digitsStep st ds)"
proof (induction ds arbitrary: st)
  case Nil
  then show ?case by simp
next
  case (Cons c cs)
  show ?case by (simp add: Cons.IH)
qed

lemma digitsStep_bounds:
  assumes "list_all isDigit ds" "0 \<le> mantissa st" "mantissa st < 10 ^ nd st"
  shows "0 \<le> mantissa (digitsStep st ds) \<and>
         mantissa (digitsStep st ds) < 10 ^ nd (digitsStep st ds) \<and>
         nd (digitsStep st ds) \<le> nd st + length ds \<and>
         dp (digitsStep st ds) \<le> dp st"
  using assms
proof (induction ds arbitrary: st)
  case Nil
  then show ?case by simp
next
  case (Cons c cs)
  let ?st = "if c = CHR ''0'' \<and> nd st = 0 then st\<lparr>sawdigits := True, dp := dp st - 1\<rparr>
        else st\<lparr>sawdigits := True, nd := nd st + 1, mantissa := mantissa st * 10 + digitVal c\<rparr>"
  from Cons.prems have d: "0 \<le> digitVal c" "digitVal c \<le> 9" and r: "list_all isDigit cs"
    by (simp_all add: digitVal_nonneg)
  have m0: "0 \<le> mantissa ?st" using Cons.prems(2) d by simp
  have "mantissa st * 10 + digitVal c < 10 * 10 ^ nd st"
    using Cons.prems(3) d by linarith
  then have m1: "mantissa ?st < 10 ^ nd ?st" using Cons.prems(3) by auto
  have n: "nd ?st \<le> nd st + 1" and p: "dp ?st \<le> dp st" by simp_all
  from Cons.IH [OF r m0 m1] n p show ?case by (simp del: rfState.simps) 
qed

lemma threshold_gt: "(10::int) ^ 308 < 2 ^ 1024 - 2 ^ 970"
  by simp

lemma no_overflow:
  assumes "0 \<le> m" "m < 10 ^ n" "int n + e \<le> 308"
  shows "\<not> overflows m 10 e"
proof (cases "0 \<le> e")
  case True
  have "m * 10 ^ nat e < 10 ^ n * 10 ^ nat e" using assms(2) by simp
  also have "\<dots> = 10 ^ (n + nat e)" by (simp add: power_add)
  also have "\<dots> \<le> (10::int) ^ 308"
    using assms(3) True by (intro power_increasing) auto
  finally show ?thesis using True threshold_gt by (simp add: overflows_def)
next
  case False
  then have le: "n \<le> 308 + nat (- e)" using assms(3) by linarith
  have "m < 10 ^ n" by (rule assms(2))
  also have "\<dots> \<le> (10::int) ^ (308 + nat (- e))"
    using le by (intro power_increasing) auto
  also have "\<dots> = 10 ^ 308 * 10 ^ nat (- e)" by (simp add: power_add)
  also have "\<dots> \<le> (2 ^ 1024 - 2 ^ 970) * 10 ^ nat (- e)"
    using threshold_gt by (intro mult_right_mono) auto
  finally show ?thesis using False by (simp add: overflows_def)
qed

lemma mantLoop_integer:
  assumes "list_all isDigit ds"
  shows "mantLoop 10 rfInit ds = (digitsStep rfInit ds, [])"
  using mantLoop_digits [OF assms, of rfInit "[]"] by simp

lemma mantLoop_decimal:
  assumes "list_all isDigit ds1" "list_all isDigit ds2"
  shows "mantLoop 10 rfInit (ds1 @ CHR ''.'' # ds2) =
           (digitsStep ((digitsStep rfInit ds1)\<lparr>sawdot := True, dp := int (nd (digitsStep rfInit ds1))\<rparr>) ds2, [])"
proof -
  let ?st1 = "digitsStep rfInit ds1"
  have nodot: "\<not> sawdot ?st1" using digitsStep_flags [of rfInit ds1] by (simp add: rfInit_def)
  have "mantLoop 10 rfInit (ds1 @ CHR ''.'' # ds2) = mantLoop 10 ?st1 (CHR ''.'' # ds2)"
    by (rule mantLoop_digits [OF assms(1)])
  also have "\<dots> = mantLoop 10 (?st1\<lparr>sawdot := True, dp := int (nd ?st1)\<rparr>) ds2"
    using nodot by simp
  also have "\<dots> = mantLoop 10 (digitsStep (?st1\<lparr>sawdot := True, dp := int (nd ?st1)\<rparr>) ds2) []"
    using mantLoop_digits [OF assms(2), of _ "[]"] by simp
  finally show ?thesis by simp
qed

lemma special_digit: "isDigit c \<Longrightarrow> special (c # cs) = None \<and> special (CHR ''-'' # c # cs) = None"
proof -
  assume d: "isDigit c"
  then have "c \<noteq> CHR ''+''" "c \<noteq> CHR ''-''" "c \<noteq> CHR ''i''" "c \<noteq> CHR ''I''" "c \<noteq> CHR ''n''" "c \<noteq> CHR ''N''" "\<not> isUpper c"
    by (auto simp: isDigit_def isUpper_def byte_def)
  then show ?thesis by (simp add: special_def infPrefix_def)
qed

lemma mantLoop_pattern:
  assumes "list_all isDigit ds1" "ds1 \<noteq> []"
    and "tail = [] \<or> (\<exists>ds2. tail = CHR ''.'' # ds2 \<and> list_all isDigit ds2)"
  shows "\<exists>st. mantLoop 10 rfInit (ds1 @ tail) = (st, []) \<and> sawdigits st \<and> \<not> underscores st \<and>
              0 \<le> mantissa st \<and> mantissa st < 10 ^ nd st \<and>
              (if sawdot st then dp st else int (nd st)) \<le> int (length ds1)"
proof -
  let ?st1 = "digitsStep rfInit ds1"
  have i0: "0 \<le> mantissa rfInit" "mantissa rfInit < 10 ^ nd rfInit" by (simp_all add: rfInit_def)
  have b1: "0 \<le> mantissa ?st1" "mantissa ?st1 < 10 ^ nd ?st1" "nd ?st1 \<le> length ds1"
    using digitsStep_bounds [OF assms(1) i0] by (simp_all add: rfInit_def)
  have f1: "\<not> underscores ?st1" "\<not> sawdot ?st1"
    using digitsStep_flags [of rfInit ds1] by (simp_all add: rfInit_def)
  have s1: "sawdigits ?st1" using assms(2) by (simp add: digitsStep_sawdigits)
  from assms(3) show ?thesis
  proof
    assume "tail = []"
    then show ?thesis using mantLoop_integer [OF assms(1)] b1 f1 s1 by simp
  next
    assume "\<exists>ds2. tail = CHR ''.'' # ds2 \<and> list_all isDigit ds2"
    then obtain ds2 where t: "tail = CHR ''.'' # ds2" and d2: "list_all isDigit ds2" by blast
    let ?st1' = "?st1\<lparr>sawdot := True, dp := int (nd ?st1)\<rparr>"
    let ?st2 = "digitsStep ?st1' ds2"
    have j0: "0 \<le> mantissa ?st1'" "mantissa ?st1' < 10 ^ nd ?st1'" using b1 by simp_all
    have b2: "0 \<le> mantissa ?st2" "mantissa ?st2 < 10 ^ nd ?st2" "dp ?st2 \<le> dp ?st1'"
      using digitsStep_bounds [OF d2 j0] by simp_all
    have f2: "\<not> underscores ?st2" "sawdot ?st2"
      using digitsStep_flags [of ?st1' ds2] f1 by simp_all
    have s2: "sawdigits ?st2" using s1 by (simp add: digitsStep_sawdigits)
    have "dp ?st2 \<le> int (length ds1)" using b2(3) b1(3) by simp
    then show ?thesis using mantLoop_decimal [OF assms(1) d2] t b2 f2 s2 by simp
  qed
qed

lemma pattern_no_hex_prefix:
  assumes "list_all isDigit ds1" "ds1 \<noteq> []"
    and "tail = [] \<or> (\<exists>ds2. tail = CHR ''.'' # ds2 \<and> list_all isDigit ds2)"
  shows "\<not> hasHexPrefix (ds1 @ tail)"
proof -
  have all: "list_all (\<lambda>c. isDigit c \<or> c = CHR ''.'') (ds1 @ tail)"
    using assms(1,3) by (auto simp: list_all_iff)
  show ?thesis
  proof (cases "2 < length (ds1 @ tail)")
    case True
    then have "(ds1 @ tail) ! 1 \<in> set (ds1 @ tail)" by (intro nth_mem) simp
    with all have "isDigit ((ds1 @ tail) ! 1) \<or> (ds1 @ tail) ! 1 = CHR ''.''"
      by (simp add: list_all_iff)
    then show ?thesis by (auto simp: isDigit_def byte_def hasHexPrefix_def)
  next
    case False
    then show ?thesis by (simp add: hasHexPrefix_def)
  qed
qed

lemma readFloat_unsigned:
  assumes "s = c0 # rest" "c0 \<noteq> CHR ''-''" "c0 \<noteq> CHR ''+''"
    and "\<not> hasHexPrefix s"
    and "mantLoop 10 rfInit s = (st, [])" "sawdigits st"
  shows "readFloat s =
           finishFloat s False False st (if sawdot st then dp st else int (nd st)) (underscores st) []"
proof -
  have a: "(case s of [] \<Rightarrow> None | c0 # x \<Rightarrow> f c0) = f c0" for f :: "char \<Rightarrow> (bool \<times> int \<times> int \<times> int \<times> string) option"
    using assms(1) by simp
  show ?thesis
    unfolding readFloat_def a
    using assms(2-) by (simp add: Let_def)
qed

lemma readFloat_negative:
  assumes "\<not> hasHexPrefix s"
    and "mantLoop 10 rfInit s = (st, [])" "sawdigits st"
  shows "readFloat (CHR ''-'' # s) =
           finishFloat (CHR ''-'' # s) True False st (if sawdot st then dp st else int (nd st))
             (underscores st) []"
  unfolding readFloat_def
  using assms by (simp add: Let_def)

lemma readFloat_pattern:
  assumes d1: "list_all isDigit ds1" "ds1 \<noteq> []"
    and tl: "tail = [] \<or> (\<exists>ds2. tail = CHR ''.'' # ds2 \<and> list_all isDigit ds2)"
    and pre: "pre = [] \<or> pre = ''-''"
  shows "\<exists>m e n. readFloat (pre @ ds1 @ tail) = Some (pre = ''-'', m, 10, e, []) \<and>
           0 \<le> m \<and> m < 10 ^ n \<and> (m = 0 \<and> e = 0 \<or> int n + e \<le> int (length ds1))"
proof -
  obtain st where st: "mantLoop 10 rfInit (ds1 @ tail) = (st, [])" "sawdigits st" "\<not> underscores st"
      "0 \<le> mantissa st" "mantissa st < 10 ^ nd st"
      "(if sawdot st then dp st else int (nd st)) \<le> int (length ds1)"
    using mantLoop_pattern [OF d1 tl] by blast
  obtain c cs where c: "ds1 = c # cs" using d1(2) by (cases ds1) auto
  then have dc: "isDigit c" using d1(1) by simp
  then have ns: "c \<noteq> CHR ''-''" "c \<noteq> CHR ''+''" using isDigit_not_sign by blast+
  have nohex: "\<not> hasHexPrefix (ds1 @ tail)"
    by (rule pattern_no_hex_prefix [OF d1 tl])
  let ?e = "if mantissa st \<noteq> 0 then (if sawdot st then dp st else int (nd st)) - int (nd st) else 0"
  have fin: "finishFloat s neg False st (if sawdot st then dp st else int (nd st)) (underscores st) [] =
               Some (neg, mantissa st, 10, ?e, [])" for s neg
    using st(3) by (simp add: finishFloat_def Let_def)
  have rf: "readFloat (pre @ ds1 @ tail) = Some (pre = ''-'', mantissa st, 10, ?e, [])"
  proof -
    from pre show ?thesis
    proof
      assume p: "pre = []"
      have "ds1 @ tail = c # (cs @ tail)" using c by simp
      from readFloat_unsigned [OF this ns nohex st(1,2)] fin p show ?thesis by simp
    next
      assume p: "pre = ''-''"
      from readFloat_negative [OF nohex st(1,2)] fin p show ?thesis by simp
    qed
  qed
  have "mantissa st = 0 \<and> ?e = 0 \<or> int (nd st) + ?e \<le> int (length ds1)"
    using st(6) by auto
  with rf st(4,5) show ?thesis by blast
qed

lemma ParseFloat_pattern:
  assumes d1: "list_all isDigit ds1" "ds1 \<noteq> []"
    and tl: "tail = [] \<or> (\<exists>ds2. tail = CHR ''.'' # ds2 \<and> list_all isDigit ds2)"
    and pre: "pre = [] \<or> pre = ''-''"
    and len: "length ds1 \<le> 308"
  shows "\<exists>m e. ParseFloat (pre @ ds1 @ tail) = Inr (FNum (pre = ''-'') m 10 e)"
proof -
  obtain m e n where r: "readFloat (pre @ ds1 @ tail) = Some (pre = ''-'', m, 10, e, [])"
      "0 \<le> m" "m < 10 ^ n" "m = 0 \<and> e = 0 \<or> int n + e \<le> int (length ds1)"
    using readFloat_pattern [OF d1 tl pre] by blast
  have no: "\<not> overflows m 10 e"
  proof (cases "m = 0 \<and> e = 0")
    case True
    then show ?thesis by (simp add: overflows_def)
  next
    case False
    with r(4) len have "int n + e \<le> 308" by linarith
    with r(2,3) show ?thesis by (rule no_overflow)
  qed
  obtain c cs where c: "ds1 = c # cs" using d1(2) by (cases ds1) auto
  then have dc: "isDigit c" using d1(1) by simp
  have sp: "special (pre @ ds1 @ tail) = None"
    using pre special_digit [OF dc, of "cs @ tail"] c by auto
  show ?thesis using sp r(1) no by (simp add: ParseFloat_def)
qed

lemma lowerChar_digit: "isDigit c \<or> c = CHR ''-'' \<Longrightarrow> lowerChar c = c"
  by (auto simp: lowerChar_def isDigit_def isUpper_def byte_def)

lemma pattern_not_keyword:
  assumes "v = c # cs" "isDigit c \<or> c = CHR ''-''"
  shows "v \<noteq> [] \<and> ToLower v \<noteq> ''null'' \<and> ToLower v \<noteq> ''true'' \<and> ToLower v \<noteq> ''false''"
proof -
  have "lowerChar c = c" using assms(2) by (rule lowerChar_digit)
  moreover have "c \<noteq> CHR ''n''" "c \<noteq> CHR ''t''" "c \<noteq> CHR ''f''"
    using assms(2) by (auto simp: isDigit_def byte_def)
  ultimately show ?thesis using assms(1) by (simp add: ToLower_def)
qed

lemma matchesInteger_split:
  assumes "matchesInteger v"
  shows "\<exists>pre ds. v = pre @ ds \<and> (pre = [] \<or> pre = ''-'') \<and> list_all isDigit ds \<and> ds \<noteq> []"
proof (cases v)
  case Nil
  with assms show ?thesis by (simp add: matchesInteger_def stripMinus_def isDigits_def)
next
  case (Cons c cs)
  show ?thesis
  proof (cases "c = CHR ''-''")
    case True
    with Cons assms have "isDigits cs" by (simp add: matchesInteger_def stripMinus_def)
    with True Cons show ?thesis by (intro exI [of _ "''-''"] exI [of _ cs]) (simp add: isDigits_def)
  next
    case False
    with Cons assms have "isDigits v" by (simp add: matchesInteger_def stripMinus_def)
    then show ?thesis by (intro exI [of _ "[]"] exI [of _ v]) (simp add: isDigits_def)
  qed
qed

lemma matchesDecimal_split:
  assumes "matchesDecimal v"
  shows "\<exists>pre ds1 ds2. v = pre @ ds1 @ CHR ''.'' # ds2 \<and> (pre = [] \<or> pre = ''-'') \<and>
           list_all isDigit ds1 \<and> ds1 \<noteq> [] \<and> list_all isDigit ds2 \<and> ds2 \<noteq> []"
proof -
  let ?r = "stripMinus v"
  from assms have a: "isDigits (takeWhile isDigit ?r)"
    and b: "case dropWhile isDigit ?r of [] \<Rightarrow> False | c # d \<Rightarrow> c = CHR ''.'' \<and> isDigits d"
    by (simp_all add: matchesDecimal_def Let_def)
  from b obtain d where d: "dropWhile isDigit ?r = CHR ''.'' # d" "isDigits d"
    by (auto split: list.splits)
  have r: "?r = takeWhile isDigit ?r @ CHR ''.'' # d"
    using takeWhile_dropWhile_id [of isDigit ?r] d(1) by simp
  have p: "\<exists>pre. v = pre @ ?r \<and> (pre = [] \<or> pre = ''-'')"
    by (cases v) (auto simp: stripMinus_def)
  then obtain pre where pre: "v = pre @ ?r" "pre = [] \<or> pre = ''-''" by blast
  have "v = pre @ takeWhile isDigit ?r @ CHR ''.'' # d" using pre(1) r by metis
  with pre(2) a d(2) show ?thesis unfolding isDigits_def by blast
qed

lemma digitsValue_Some: "digitsValue acc s = Some n \<Longrightarrow> list_all isDigit s"
  by (induction s arbitrary: acc) (auto split: if_splits)

lemma ParseInt_dot:
  assumes "list_all isDigit ds1" "ds1 \<noteq> []" "pre = [] \<or> pre = ''-''"
  shows "ParseInt (pre @ ds1 @ CHR ''.'' # ds2) = Inl ErrSyntax"
proof -
  have nd: "\<not> isDigit (CHR ''.'')" by (simp add: isDigit_def byte_def)
  have u: "ParseUint (ds1 @ CHR ''.'' # ds2) = Inl ErrSyntax"
  proof (cases "digitsValue 0 (ds1 @ CHR ''.'' # ds2)")
    case None
    then show ?thesis by (simp add: ParseUint_def)
  next
    case (Some n)
    then have "list_all isDigit (ds1 @ CHR ''.'' # ds2)" by (rule digitsValue_Some)
    with nd show ?thesis by simp
  qed
  obtain c cs where c: "ds1 = c # cs" using assms(2) by (cases ds1) auto
  then have "isDigit c" using assms(1) by simp
  then have ns: "c \<noteq> CHR ''-''" "c \<noteq> CHR ''+''" using isDigit_not_sign by blast+
  from assms(3) show ?thesis
  proof
    assume "pre = []"
    then show ?thesis using u ns c by (simp add: ParseInt_def Let_def)
  next
    assume "pre = ''-''"
    then show ?thesis using u by (simp add: ParseInt_def Let_def)
  qed
qed

lemma ParseUint_iff: "(ParseUint b = Inr u) = (isDigits b \<and> u = decValue b)"
proof
  assume a: "ParseUint b = Inr u"
  then have ne: "b \<noteq> []" and d: "digitsValue 0 b = Some u"
    by (auto simp: ParseUint_def split: if_splits option.splits)
  from d have l: "list_all isDigit b" by (rule digitsValue_Some)
  with d have "u = decValue b" by (simp add: digitsValue_digits)
  with ne l show "isDigits b \<and> u = decValue b" by (simp add: isDigits_def)
next
  assume "isDigits b \<and> u = decValue b"
  then show "ParseUint b = Inr u" by (simp add: ParseUint_digits)
qed

lemma ParseInt_unfold:
  "ParseInt (c # cs) =
     (case ParseUint (stripSign (c # cs)) of
        Inl e \<Rightarrow> Inl e
      | Inr un \<Rightarrow>
          if c \<noteq> CHR ''-'' \<and> un \<ge> 2 ^ 63 then Inl ErrRange
          else if c = CHR ''-'' \<and> un > 2 ^ 63 then Inl ErrRange
          else Inr (if c = CHR ''-'' then - un else un))"
  by (simp add: ParseInt_def stripSign_def Let_def)

text \<open>
  \<open>strconv.ParseInt\<close> accepts exactly the texts made of an optional sign and decimal
  digits whose value fits an int64, and returns that value.
\<close>

lemma ParseInt_iff:
  "(ParseInt v = Inr n) =
     (matchesSignedInteger v \<and> - (2 ^ 63) \<le> signedValue v \<and> signedValue v < 2 ^ 63 \<and>
      n = signedValue v)"
proof (cases v)
  case Nil
  then show ?thesis
    by (simp add: ParseInt_def matchesSignedInteger_def stripSign_def isDigits_def)
next
  case (Cons c cs)
  let ?b = "stripSign v"
  show ?thesis
  proof (cases "isDigits ?b")
    case False
    then have "\<And>u. ParseUint ?b \<noteq> Inr u" by (simp add: ParseUint_iff)
    then have "ParseInt v \<noteq> Inr n"
      unfolding Cons ParseInt_unfold by (cases "ParseUint (stripSign (c # cs))") auto
    with False show ?thesis by (simp add: matchesSignedInteger_def)
  next
    case True
    then have u: "ParseUint ?b = Inr (decValue ?b)" by (simp add: ParseUint_iff)
    have nn: "0 \<le> decValue ?b" using True decValue_bounds by (simp add: isDigits_def)
    have sv: "signedValue v = (if c = CHR ''-'' then - decValue ?b else decValue ?b)"
      using Cons by (simp add: signedValue_def stripSign_def)
    define d where "d = decValue ?b"
    define P :: int where "P = 2 ^ 63"
    have p: "0 < P" by (simp add: P_def)
    have "ParseInt v =
            (if c \<noteq> CHR ''-'' \<and> d \<ge> P then Inl ErrRange
             else if c = CHR ''-'' \<and> d > P then Inl ErrRange
             else Inr (if c = CHR ''-'' then - d else d))"
      unfolding Cons ParseInt_unfold using u by (simp add: d_def P_def Cons)
    moreover have "signedValue v = (if c = CHR ''-'' then - d else d)"
      using sv by (simp add: d_def)
    moreover have "0 \<le> d" using nn by (simp add: d_def)
    ultimately have "(ParseInt v = Inr n) =
        (- P \<le> signedValue v \<and> signedValue v < P \<and> n = signedValue v)"
      using p by (cases "c = CHR ''-''") auto
    with True show ?thesis by (simp add: matchesSignedInteger_def P_def)
  qed
qed

section \<open>Properties of \<open>cleanField\<close>\<close>

lemma cleanField_integer:
  assumes "fieldText f = Some v" "matchesInteger v"
    "- (2 ^ 63) \<le> patternValue v" "patternValue v < 2 ^ 63"
  shows "cleanField f = VInt (patternValue v)"
proof -
  obtain pre ds where s: "v = pre @ ds" "pre = [] \<or> pre = ''-''" "list_all isDigit ds" "ds \<noteq> []"
    using matchesInteger_split [OF assms(2)] by blast
  then obtain c cs where "v = c # cs" "isDigit c \<or> c = CHR ''-''"
    by (cases ds) auto
  then have k: "v \<noteq> []" "ToLower v \<noteq> ''null''" "ToLower v \<noteq> ''true''" "ToLower v \<noteq> ''false''"
    using pattern_not_keyword by blast+
  have "ParseInt v = Inr (patternValue v)"
    using ParseInt_pattern [OF assms(2)] assms(3,4) by simp
  with k assms(1) show ?thesis by (simp add: cleanField_def)
qed

lemma cleanField_big_integer:
  assumes "fieldText f = Some v" "matchesInteger v"
    "\<not> (- (2 ^ 63) \<le> patternValue v \<and> patternValue v < 2 ^ 63)" "length v \<le> 308"
  shows "\<exists>m e. cleanField f = VFloat (FNum (hd v = CHR ''-'') m 10 e)"
proof -
  obtain pre ds where s: "v = pre @ ds" "pre = [] \<or> pre = ''-''" "list_all isDigit ds" "ds \<noteq> []"
    using matchesInteger_split [OF assms(2)] by blast
  then obtain c cs where "v = c # cs" "isDigit c \<or> c = CHR ''-''"
    by (cases ds) auto
  then have k: "v \<noteq> []" "ToLower v \<noteq> ''null''" "ToLower v \<noteq> ''true''" "ToLower v \<noteq> ''false''"
    using pattern_not_keyword by blast+
  have i: "ParseInt v = Inl ErrRange"
    using ParseInt_pattern [OF assms(2)] assms(3) by simp
  have "length ds \<le> 308" using s(1) assms(4) by simp
  from ParseFloat_pattern [OF s(3,4) _ s(2) this, of "[]"]
  obtain m e where "ParseFloat v = Inr (FNum (pre = ''-'') m 10 e)" using s(1) by auto
  moreover have "(pre = ''-'') = (hd v = CHR ''-'')"
    using s isDigit_not_sign by (cases ds) auto
  ultimately show ?thesis using k i assms(1) by (simp add: cleanField_def)
qed

lemma cleanField_decimal:
  assumes "fieldText f = Some v" "matchesDecimal v" "length v \<le> 308"
  shows "\<exists>m e. cleanField f = VFloat (FNum (hd v = CHR ''-'') m 10 e)"
proof -
  obtain pre ds1 ds2 where s: "v = pre @ ds1 @ CHR ''.'' # ds2" "pre = [] \<or> pre = ''-''"
      "list_all isDigit ds1" "ds1 \<noteq> []" "list_all isDigit ds2" "ds2 \<noteq> []"
    using matchesDecimal_split [OF assms(2)] by blast
  then obtain c cs where "v = c # cs" "isDigit c \<or> c = CHR ''-''"
    by (cases ds1) auto
  then have k: "v \<noteq> []" "ToLower v \<noteq> ''null''" "ToLower v \<noteq> ''true''" "ToLower v \<noteq> ''false''"
    using pattern_not_keyword by blast+
  have i: "ParseInt v = Inl ErrSyntax"
    using ParseInt_dot [OF s(3,4,2)] s(1) by simp
  have "length ds1 \<le> 308" using s(1) assms(3) by simp
  from ParseFloat_pattern [OF s(3,4) _ s(2) this, of "CHR ''.'' # ds2"] s(5)
  obtain m e where "ParseFloat v = Inr (FNum (pre = ''-'') m 10 e)" using s(1) by auto
  moreover have "(pre = ''-'') = (hd v = CHR ''-'')"
    using s isDigit_not_sign by (cases ds1) auto
  ultimately show ?thesis using k i assms(1) by (simp add: cleanField_def)
qed

lemma cleanField_null:
  assumes "fieldText f = Some v"
  shows "(cleanField f = VNull) = (v = [] \<or> ToLower v = ''null'')"
  using assms by (simp add: cleanField_def split: sum.splits)

lemma cleanField_bool:
  assumes "fieldText f = Some v"
  shows "(cleanField f = VBool b) = (ToLower v = (if b then ''true'' else ''false''))"
  using assms by (auto simp: cleanField_def ToLower_def split: sum.splits)

lemma cleanField_none: "fieldText f = None \<Longrightarrow> cleanField f = VNull"
  by (simp add: cleanField_def)

lemma cleanField_int:
  assumes "fieldText f = Some v"
  shows "(cleanField f = VInt n) = (\<not> keywordText v \<and> ParseInt v = Inr n)"
  using assms by (auto simp: cleanField_def keywordText_def split: sum.splits)

lemma cleanField_float:
  assumes "fieldText f = Some v"
  shows "(cleanField f = VFloat x) = (\<not> keywordText v \<and> isl (ParseInt v) \<and> ParseFloat v = Inr x)"
  using assms by (auto simp: cleanField_def keywordText_def split: sum.splits)

lemma cleanField_string:
  assumes "fieldText f = Some v"
  shows "(cleanField f = VStr s) =
           (s = v \<and> \<not> keywordText v \<and> isl (ParseInt v) \<and> isl (ParseFloat v))"
  using assms by (auto simp: cleanField_def keywordText_def split: sum.splits)

text \<open>
  Claim C1, as the code has it. The text classified is \<open>fieldText\<close>: an unquoted field
  trimmed, a quoted field unescaped; a field with neither is null. The value is null
  exactly when the text is empty or equals \<open>null\<close> in any case, a boolean exactly when it
  equals \<open>true\<close> or \<open>false\<close> in any case, the integer \<open>n\<close> exactly when it is none of
  these and \<open>strconv.ParseInt\<close> reads it as \<open>n\<close>, the float \<open>x\<close> exactly when it is none
  of these, \<open>strconv.ParseInt\<close> rejects it and \<open>strconv.ParseFloat\<close> reads it as \<open>x\<close>,
  and a string exactly when it is none of these and both parsers reject it; the string is
  then the text itself. \<open>strconv.ParseInt\<close> reads exactly an optional sign \<open>+\<close> or \<open>-\<close>
  followed by decimal digits, within an int64. This is more than the two patterns of the
  claim: a text matching \<open>-?digits\<close> is an integer when it fits an int64 and a float
  otherwise, and a text matching \<open>-?digits.digits\<close> is a float (both shown for texts of
  at most 308 bytes, which cannot overflow a float64).
\<close>

theorem cleanField_rules:
  "(fieldText f = None \<longrightarrow> cleanField f = VNull) \<and>
   (fieldText f = Some v \<longrightarrow>
      ((cleanField f = VNull) = (v = [] \<or> ToLower v = ''null'')) \<and>
      ((cleanField f = VBool True) = (ToLower v = ''true'')) \<and>
      ((cleanField f = VBool False) = (ToLower v = ''false'')) \<and>
      (\<forall>n. (cleanField f = VInt n) = (\<not> keywordText v \<and> ParseInt v = Inr n)) \<and>
      (\<forall>x. (cleanField f = VFloat x) =
            (\<not> keywordText v \<and> isl (ParseInt v) \<and> ParseFloat v = Inr x)) \<and>
      (\<forall>s. (cleanField f = VStr s) =
            (s = v \<and> \<not> keywordText v \<and> isl (ParseInt v) \<and> isl (ParseFloat v))) \<and>
      (\<forall>n. (ParseInt v = Inr n) =
            (matchesSignedInteger v \<and> - (2 ^ 63) \<le> signedValue v \<and> signedValue v < 2 ^ 63 \<and>
             n = signedValue v)) \<and>
      (matchesInteger v \<and> - (2 ^ 63) \<le> patternValue v \<and> patternValue v < 2 ^ 63 \<longrightarrow>
         cleanField f = VInt (patternValue v)) \<and>
      (matchesInteger v \<and> \<not> (- (2 ^ 63) \<le> patternValue v \<and> patternValue v < 2 ^ 63) \<and>
       length v \<le> 308 \<longrightarrow>
         (\<exists>m e. cleanField f = VFloat (FNum (hd v = CHR ''-'') m 10 e))) \<and>
      (matchesDecimal v \<and> length v \<le> 308 \<longrightarrow>
         (\<exists>m e. cleanField f = VFloat (FNum (hd v = CHR ''-'') m 10 e))))"
proof (intro conjI impI allI)
  show "cleanField f = VNull" if "fieldText f = None"
    using that by (rule cleanField_none)
next
  assume t: "fieldText f = Some v"
  show "(cleanField f = VNull) = (v = [] \<or> ToLower v = ''null'')"
    by (rule cleanField_null [OF t])
  show "(cleanField f = VBool True) = (ToLower v = ''true'')"
    using cleanField_bool [OF t, of True] by simp
  show "(cleanField f = VBool False) = (ToLower v = ''false'')"
    using cleanField_bool [OF t, of False] by simp
  show "(cleanField f = VInt n) = (\<not> keywordText v \<and> ParseInt v = Inr n)" for n
    by (rule cleanField_int [OF t])
  show "(cleanField f = VFloat x) =
          (\<not> keywordText v \<and> isl (ParseInt v) \<and> ParseFloat v = Inr x)" for x
    by (rule cleanField_float [OF t])
  show "(cleanField f = VStr s) =
          (s = v \<and> \<not> keywordText v \<and> isl (ParseInt v) \<and> isl (ParseFloat v))" for s
    by (rule cleanField_string [OF t])
  show "(ParseInt v = Inr n) =
          (matchesSignedInteger v \<and> - (2 ^ 63) \<le> signedValue v \<and> signedValue v < 2 ^ 63 \<and>
           n = signedValue v)" for n
    by (rule ParseInt_iff)
  show "cleanField f = VInt (patternValue v)"
    if "matchesInteger v \<and> - (2 ^ 63) \<le> patternValue v \<and> patternValue v < 2 ^ 63"
    using that cleanField_integer [OF t] by blast
  show "\<exists>m e. cleanField f = VFloat (FNum (hd v = CHR ''-'') m 10 e)"
    if "matchesInteger v \<and> \<not> (- (2 ^ 63) \<le> patternValue v \<and> patternValue v < 2 ^ 63) \<and>
        length v \<le> 308"
    using that cleanField_big_integer [OF t] by blast
  show "\<exists>m e. cleanField f = VFloat (FNum (hd v = CHR ''-'') m 10 e)"
    if "matchesDecimal v \<and> length v \<le> 308"
    using that cleanField_decimal [OF t] by blast
qed

theorem cleanField_rules_witness:
  "fieldText \<lparr>Quoted = None, Unquoted = Some '' -42 ''\<rparr> = Some ''-42'' \<and>
   matchesInteger ''-42'' \<and>
   cleanField \<lparr>Quoted = None, Unquoted = Some '' -42 ''\<rparr> = VInt (- 42) \<and>
   fieldText \<lparr>Quoted = None, Unquoted = Some ''19.99''\<rparr> = Some ''19.99'' \<and>
   matchesDecimal ''19.99'' \<and>
   (\<exists>m e. cleanField \<lparr>Quoted = None, Unquoted = Some ''19.99''\<rparr> = VFloat (FNum False m 10 e)) \<and>
   fieldText \<lparr>Quoted = None, Unquoted = Some ''9223372036854775808''\<rparr> = Some ''9223372036854775808'' \<and>
   matchesInteger ''9223372036854775808'' \<and>
   (\<exists>m e. cleanField \<lparr>Quoted = None, Unquoted = Some ''9223372036854775808''\<rparr> =
            VFloat (FNum False m 10 e)) \<and>
   fieldText \<lparr>Quoted = None, Unquoted = Some ''Alice''\<rparr> = Some ''Alice'' \<and>
   \<not> keywordText ''Alice'' \<and> isl (ParseInt ''Alice'') \<and> isl (ParseFloat ''Alice'') \<and>
   cleanField \<lparr>Quoted = None, Unquoted = Some ''Alice''\<rparr> = VStr ''Alice'' \<and>
   fieldText \<lparr>Quoted = None, Unquoted = None\<rparr> = None \<and>
   cleanField \<lparr>Quoted = None, Unquoted = None\<rparr> = VNull"
proof -
  have t1: "fieldText \<lparr>Quoted = None, Unquoted = Some '' -42 ''\<rparr> = Some ''-42''" by code_simp
  have m1: "matchesInteger ''-42''" by code_simp
  have v1: "patternValue ''-42'' = - 42" by code_simp
  have "matchesInteger ''-42'' \<and> - (2 ^ 63) \<le> patternValue ''-42'' \<and> patternValue ''-42'' < 2 ^ 63 \<longrightarrow>
        cleanField \<lparr>Quoted = None, Unquoted = Some '' -42 ''\<rparr> = VInt (patternValue ''-42'')"
    using cleanField_rules [of "\<lparr>Quoted = None, Unquoted = Some '' -42 ''\<rparr>" "''-42''"] t1 by blast
  then have c1: "cleanField \<lparr>Quoted = None, Unquoted = Some '' -42 ''\<rparr> = VInt (- 42)"
    using m1 v1 by simp
  have t2: "fieldText \<lparr>Quoted = None, Unquoted = Some ''19.99''\<rparr> = Some ''19.99''" by code_simp
  have m2: "matchesDecimal ''19.99''" by code_simp
  have "matchesDecimal ''19.99'' \<and> length ''19.99'' \<le> 308 \<longrightarrow>
        (\<exists>m e. cleanField \<lparr>Quoted = None, Unquoted = Some ''19.99''\<rparr> =
                 VFloat (FNum (hd ''19.99'' = CHR ''-'') m 10 e))"
    using cleanField_rules [of "\<lparr>Quoted = None, Unquoted = Some ''19.99''\<rparr>" "''19.99''"] t2 by blast
  then have c2: "\<exists>m e. cleanField \<lparr>Quoted = None, Unquoted = Some ''19.99''\<rparr> = VFloat (FNum False m 10 e)"
    using m2 by simp
  have t3: "fieldText \<lparr>Quoted = None, Unquoted = Some ''9223372036854775808''\<rparr> =
            Some ''9223372036854775808''" by code_simp
  have m3: "matchesInteger ''9223372036854775808''" by code_simp
  have v3: "patternValue ''9223372036854775808'' = 9223372036854775808" by code_simp
  have "matchesInteger ''9223372036854775808'' \<and>
        \<not> (- (2 ^ 63) \<le> patternValue ''9223372036854775808'' \<and>
           patternValue ''9223372036854775808'' < 2 ^ 63) \<and>
        length ''9223372036854775808'' \<le> 308 \<longrightarrow>
        (\<exists>m e. cleanField \<lparr>Quoted = None, Unquoted = Some ''9223372036854775808''\<rparr> =
                 VFloat (FNum (hd ''9223372036854775808'' = CHR ''-'') m 10 e))"
    using cleanField_rules [of "\<lparr>Quoted = None, Unquoted = Some ''9223372036854775808''\<rparr>"
        "''9223372036854775808''"] t3 by blast
  then have c3: "\<exists>m e. cleanField \<lparr>Quoted = None, Unquoted = Some ''9223372036854775808''\<rparr> =
            VFloat (FNum False m 10 e)"
    using m3 v3 by simp
  have t4: "fieldText \<lparr>Quoted = None, Unquoted = Some ''Alice''\<rparr> = Some ''Alice''" by code_simp
  have k4: "\<not> keywordText ''Alice''" by code_simp
  have i4: "isl (ParseInt ''Alice'')" "isl (ParseFloat ''Alice'')" by code_simp+
  have "(cleanField \<lparr>Quoted = None, Unquoted = Some ''Alice''\<rparr> = VStr ''Alice'') =
        (''Alice'' = ''Alice'' \<and> \<not> keywordText ''Alice'' \<and> isl (ParseInt ''Alice'') \<and>
         isl (ParseFloat ''Alice''))"
    using cleanField_rules [of "\<lparr>Quoted = None, Unquoted = Some ''Alice''\<rparr>" "''Alice''"] t4 by blast
  then have c4: "cleanField \<lparr>Quoted = None, Unquoted = Some ''Alice''\<rparr> = VStr ''Alice''"
    using k4 i4 by simp
  have t5: "fieldText \<lparr>Quoted = None, Unquoted = None\<rparr> = None" by code_simp
  have c5: "cleanField \<lparr>Quoted = None, Unquoted = None\<rparr> = VNull"
    using cleanField_rules [of "\<lparr>Quoted = None, Unquoted = None\<rparr>"] t5 by blast
  from t1 m1 c1 t2 m2 c2 t3 m3 c3 t4 k4 i4 c4 t5 c5 show ?thesis by blast
qed

text \<open>
  Claim C1 as stated fails: \<open>1e5\<close>, \<open>+5\<close> and \<open>NaN\<close> match neither pattern and are
  classified as numbers.
\<close>

theorem cleanField_pattern_counterexample:
  "\<not> matchesInteger ''1e5'' \<and> \<not> matchesDecimal ''1e5'' \<and>
   cleanField \<lparr>Quoted = None, Unquoted = Some ''1e5''\<rparr> = VFloat (FNum False 1 10 5) \<and>
   \<not> matchesInteger ''+5'' \<and> \<not> matchesDecimal ''+5'' \<and>
   cleanField \<lparr>Quoted = None, Unquoted = Some ''+5''\<rparr> = VInt 5 \<and>
   \<not> matchesInteger ''NaN'' \<and> \<not> matchesDecimal ''NaN'' \<and>
   cleanField \<lparr>Quoted = None, Unquoted = Some ''NaN''\<rparr> = VFloat FNaN"
  by code_simp

text \<open>
  Claim C5 as stated fails: the quoted field \<open>" true "\<close> keeps its spaces and is a string,
  the unquoted text is trimmed and is a boolean.
\<close>

theorem quoted_not_trimmed_counterexample:
  "cleanField \<lparr>Quoted = Some (CHR 0x22 # '' true '' @ [CHR 0x22]), Unquoted = None\<rparr> = VStr '' true '' \<and>
   cleanField \<lparr>Quoted = None, Unquoted = Some '' true ''\<rparr> = VBool True"
  by code_simp

lemma fieldText_quoted:
  "fieldText \<lparr>Quoted = Some (CHR 0x22 # t @ [CHR 0x22]), Unquoted = x\<rparr> = Some (unescapeQuotes t)"
  by (simp add: fieldText_def TrimPrefix_def TrimSuffix_def)

text \<open>
  Claim C5, as the code has it. The same null, boolean, number and string rules classify a
  quoted and an unquoted field, but only the unquoted text is trimmed: a quoted field with
  content \<open>t\<close> classifies as an unquoted text does whenever the unescaped \<open>t\<close> equals that
  text after trimming.
\<close>

theorem quoted_like_unquoted:
  assumes "unescapeQuotes t = TrimSpace u"
  shows "cleanField \<lparr>Quoted = Some (CHR 0x22 # t @ [CHR 0x22]), Unquoted = x\<rparr> =
         cleanField \<lparr>Quoted = None, Unquoted = Some u\<rparr>"
proof -
  have "fieldText \<lparr>Quoted = None, Unquoted = Some u\<rparr> = Some (TrimSpace u)"
    by (simp add: fieldText_def)
  with assms fieldText_quoted [of t x] show ?thesis by (simp add: cleanField_def)
qed

theorem quoted_like_unquoted_witness:
  "unescapeQuotes ''true'' = TrimSpace '' true '' \<and>
   cleanField \<lparr>Quoted = Some (CHR 0x22 # ''true'' @ [CHR 0x22]), Unquoted = None\<rparr> = VBool True \<and>
   cleanField \<lparr>Quoted = None, Unquoted = Some '' true ''\<rparr> = VBool True"
proof -
  have h: "unescapeQuotes ''true'' = TrimSpace '' true ''" by code_simp
  have u: "cleanField \<lparr>Quoted = None, Unquoted = Some '' true ''\<rparr> = VBool True" by code_simp
  have q: "cleanField \<lparr>Quoted = Some (CHR 0x22 # ''true'' @ [CHR 0x22]), Unquoted = None\<rparr> =
           cleanField \<lparr>Quoted = None, Unquoted = Some '' true ''\<rparr>"
    by (rule quoted_like_unquoted [OF h])
  from h q u show ?thesis by (simp only: simp_thms)
qed


section \<open>Properties of \<open>transform\<close>\<close>










lemma transformStep_orphan:
  "TableHeader l = None \<Longrightarrow> transformStep (tables, None) l = (tables, None)"
  by (simp add: transformStep_def split: option.splits)

lemma foldl_orphans:
  "list_all (\<lambda>l. TableHeader l = None) pre \<Longrightarrow>
   foldl transformStep (tables, None) pre = (tables, None)"
  by (induction pre) (simp_all add: transformStep_orphan)

text \<open>
  A schema-definition line or a data-row line that comes before any table-header line in
  the tree is ignored by \<open>transform\<close>: it adds no column, row or table, so the document
  is the one obtained without the lines before the first header, and the one obtained
  with those schema and data lines removed.
\<close>

lemma orphan_lines_ignored:
  assumes "list_all (\<lambda>l. TableHeader l = None) pre"
  shows "transform (pre @ rest) = transform rest \<and>
         transform (pre @ rest) = transform (filter orphanFree pre @ rest)"
proof -
  have a: "foldl transformStep ([], None) pre = ([], None)"
    using assms by (rule foldl_orphans)
  have "list_all (\<lambda>l. TableHeader l = None) (filter orphanFree pre)"
    using assms by (induction pre) simp_all
  then have b: "foldl transformStep ([], None) (filter orphanFree pre) = ([], None)"
    by (rule foldl_orphans)
  show ?thesis by (simp add: transform_def a b)
qed

lemma orphan_lines_ignored_example:
  "list_all (\<lambda>l. TableHeader l = None) [exSchema, exRow] \<and>
   transform ([exSchema, exRow] @ [exHeader, exRow]) = transform [exHeader, exRow] \<and>
   transform [exHeader, exRow] = \<lparr>Tables = [\<lparr>Name = ''T'', Columns = [], Rows = [[VInt 1]]\<rparr>]\<rparr>"
proof -
  have h: "list_all (\<lambda>l. TableHeader l = None) [exSchema, exRow]"
    by (simp add: exSchema_def exRow_def)
  have e: "transform [exHeader, exRow] = \<lparr>Tables = [\<lparr>Name = ''T'', Columns = [], Rows = [[VInt 1]]\<rparr>]\<rparr>"
    by code_simp
  from orphan_lines_ignored [OF h, of "[exHeader, exRow]"] h e show ?thesis by simp
qed

section \<open>Properties of the lexer\<close>

















text \<open>
  A text that starts with a type keyword, in any case, at a word boundary is lexed as that
  keyword and not as an identifier; without the word boundary it is an identifier.
\<close>

lemma keywords_lexed_as_types:
  "list_all (\<lambda>ty. firstRule lexRules ty = Some (TTypeName, length ty)) typeNames \<and>
   firstRule lexRules ''Date x'' = Some (TTypeName, 4) \<and>
   firstRule lexRules ''TEXT'' = Some (TTypeName, 4) \<and>
   firstRule lexRules ''date_of_birth'' = Some (TIdent, 13) \<and>
   firstRule lexRules ''integer'' = Some (TIdent, 7)"
  by code_simp

lemma firstRule_hash:
  assumes "firstRule lexRules (CHR ''#'' # c # rest) = Some (ty, n)"
  shows "2 \<le> n"
proof -
  consider (bang) "c = CHR ''!''" | (at) "c = CHR ''@''" | (other) "c \<noteq> CHR ''!''" "c \<noteq> CHR ''@''"
    by blast
  then show ?thesis
  proof cases
    case bang
    with assms show ?thesis by (simp add: lexRules_def matchComment_def matchLiteral_def)
  next
    case at
    with assms show ?thesis by (simp add: lexRules_def matchComment_def matchLiteral_def)
  next
    case other
    with assms show ?thesis by (auto simp: lexRules_def matchComment_def)
  qed
qed

lemma hashOnlyLast_Cons:
  "hashOnlyLast (t # ts) = ((ts = [] \<or> snd t \<noteq> ''#'') \<and> hashOnlyLast ts)"
  by (cases ts) auto

lemma lexTokens_Nil: "lexTokens [] = Inr []"
  by (simp add: lexTokens.simps)

lemma lexTokens_hash: "lexTokens s = Inr ts \<Longrightarrow> hashOnlyLast ts"
proof (induction s arbitrary: ts rule: lexTokens.induct)
  case (1 s)
  show ?case
  proof (cases "s = []")
    case True
    with "1.prems" show ?thesis by (simp add: lexTokens.simps)
  next
    case False
    from "1.prems" False obtain ty n ts' where
      f: "firstRule lexRules s = Some (ty, n)" and n: "n \<noteq> 0"
      and l: "lexTokens (drop n s) = Inr ts'" and ts: "ts = (ty, take n s) # ts'"
      by (subst (asm) lexTokens.simps) (auto split: option.splits if_splits sum.splits)
    have ih: "hashOnlyLast ts'" using "1.IH" [OF False f refl n l] .
    have "ts' = [] \<or> take n s \<noteq> ''#''"
    proof (rule disjCI)
      assume e: "\<not> take n s \<noteq> ''#''"
      then have tk: "take n s = ''#''" by simp
      show "ts' = []"
      proof (cases "drop n s")
        case Nil
        with l show ?thesis by (simp add: lexTokens_Nil)
      next
        case (Cons d ds)
        from tk obtain s' where s: "s = CHR ''#'' # s'" by (cases s) (auto split: if_splits simp: take_Cons')
        from Cons have "n < length s" by (metis drop_all leI list.distinct(1))
        with tk have "n = 1" by (metis length_take min.absorb2 less_imp_le length_Cons list.size(3) One_nat_def)
        with Cons s obtain c rest where "s = CHR ''#'' # c # rest" by (cases s') auto
        with f have "2 \<le> n" using firstRule_hash by blast
        with \<open>n = 1\<close> show ?thesis by simp
      qed
    qed
    with ih ts show ?thesis by (simp add: hashOnlyLast_Cons)
  qed
qed

section \<open>Properties of the parser\<close>

lemma hashOnlyLast_filter: "hashOnlyLast ts \<Longrightarrow> hashOnlyLast (filter P ts)"
proof (induction ts)
  case Nil
  then show ?case by simp
next
  case (Cons t ts)
  then have a: "ts = [] \<or> snd t \<noteq> ''#''" and h: "hashOnlyLast ts"
    by (simp_all add: hashOnlyLast_Cons)
  from a have "filter P ts = [] \<or> snd t \<noteq> ''#''" by auto
  with Cons.IH [OF h] show ?case by (simp add: hashOnlyLast_Cons)
qed

lemma hashOnlyLast_drop: "hashOnlyLast ts \<Longrightarrow> hashOnlyLast (drop k ts)"
proof (induction ts arbitrary: k)
  case Nil
  then show ?case by simp
next
  case (Cons t ts)
  then have h: "hashOnlyLast ts" by (simp add: hashOnlyLast_Cons)
  show ?case
  proof (cases k)
    case 0
    with Cons.prems show ?thesis by simp
  next
    case (Suc j)
    with Cons.IH [OF h] show ?thesis by simp
  qed
qed

lemma no_hash_rules:
  assumes "hashOnlyLast ts"
  shows "parseTableHeader ts = None \<and> parseSchemaDef ts = None"
proof (cases ts)
  case Nil
  then show ?thesis by (simp add: parseTableHeader_def parseSchemaDef_def)
next
  case (Cons h r)
  show ?thesis
  proof (cases "isLit ''#'' h")
    case False
    with Cons show ?thesis
      by (simp add: parseTableHeader_def parseSchemaDef_def split: list.splits)
  next
    case True
    then have "snd h = ''#''" by (simp add: isLit_def)
    with assms Cons have "r = []" by (simp add: hashOnlyLast_Cons)
    with Cons show ?thesis
      by (simp add: parseTableHeader_def parseSchemaDef_def)
  qed
qed

text \<open>
  The table-header rule and the schema rule both start with the literal \<open>'#'\<close>, a token
  whose text is \<open>#\<close>. The lexer gives such a token only for a \<open>#\<close> that ends the input:
  \<open>#!\<close> and \<open>#@\<close> are one token each, of the rules \<open>TableMarker\<close> and \<open>SchemaMarker\<close>
  that come before \<open>Punct\<close>, and a \<open>#\<close> before any other character starts a \<open>Comment\<close>
  token. So the two rules match at no position of the tokens of any input.
\<close>

lemma header_rules_never_match:
  assumes "lexTokens input = Inr ts"
  shows "parseTableHeader (drop k (elide ts)) = None \<and> parseSchemaDef (drop k (elide ts)) = None"
proof -
  have "hashOnlyLast (elide ts)"
    unfolding elide_def using lexTokens_hash [OF assms] by (rule hashOnlyLast_filter)
  then have "hashOnlyLast (drop k (elide ts))" by (rule hashOnlyLast_drop)
  then show ?thesis by (rule no_hash_rules)
qed

text \<open>
  The parser is not built. In the tag of \<open>comment\<close>, \<open>![@!]\<close> reads as a negation of an
  optional group that holds a capture of a negation, and the operand of that last negation
  is the closing bracket: \<open>MustBuild\<close> panics with \<open>unexpected token\<close> at the bracket. The
  tags of all other structs are read.
\<close>

lemma comment_tag_tokens:
  "tagLex '''#' ( ![@!] @( ~Newline )* )? Newline'' =
     [TagChar ''#'', TagPunct (CHR ''(''), TagPunct (CHR ''!''), TagPunct (CHR ''[''),
      TagPunct (CHR ''@''), TagPunct (CHR ''!''), TagPunct (CHR '']''), TagPunct (CHR ''@''),
      TagPunct (CHR ''(''), TagPunct (CHR ''~''), TagIdent ''Newline'', TagPunct (CHR '')''),
      TagPunct (CHR ''*''), TagPunct (CHR '')''), TagPunct (CHR ''?''), TagIdent ''Newline'']"
  by code_simp

lemma structs_read:
  "map (\<lambda>s. (fst s, case parseStruct (snd s) of Inl e \<Rightarrow> Some e | Inr n \<Rightarrow> None)) grammarStructs =
     [(''file'', None), (''line'', None),
      (''comment'', Some (UnexpectedToken (TagPunct (CHR '']'')))),
      (''tableHeader'', None), (''schemaDef'', None), (''columnDef'', None),
      (''dataRow'', None), (''field'', None)]"
  by code_simp

lemma tableHeader_tag_read:
  "parseStruct ['''#' '!' @Ident Newline''] =
     Inr (Sequence [Literal ''#'', Literal ''!'', Capture (Reference ''Ident''), Reference ''Newline''])"
  by code_simp

lemma parser_not_built: "parser = Inl (UnexpectedToken (TagPunct (CHR '']'')))"
  by code_simp

text \<open>So no call of \<open>ParseString\<close> returns, whatever the input.\<close>

lemma ParseString_panics: "ParseString run input = Panic (UnexpectedToken (TagPunct (CHR '']'')))"
  by (simp add: ParseString_def parser_not_built)

text \<open>
  Claim C2 fails on the code. For the input of the claim \<open>ParseString\<close> returns neither
  a document nor an error: the parser was not built. Apart from that, the lexer gives
  \<open>#!\<close> and \<open>#@\<close> as one token each, so the literals \<open>'#' '!'\<close> of the table-header rule
  do not match the tokens of the header line, nor the literals \<open>'#' '@'\<close> of the schema
  rule those of the schema line; by \<open>header_rules_never_match\<close> this is so for every
  input. The claim and \<open>TestParseBasicTable\<close> expect the table \<open>User\<close>.
\<close>

theorem basic_table_not_recognised:
  "ParseString run ''#! User\<newline>#@ id:uint, name:str\<newline>1, Alice\<newline>'' = Panic (UnexpectedToken (TagPunct (CHR '']''))) \<and>
   (\<exists>ts. lexTokens ''#! User\<newline>#@ id:uint, name:str\<newline>1, Alice\<newline>'' = Inr ts \<and>
      take 3 (elide ts) = [(TTableMarker, ''#!''), (TIdent, ''User''), (TNewline, ''\<newline>'')] \<and>
      parseTableHeader (elide ts) = None \<and>
      take 4 (drop 3 (elide ts)) =
        [(TSchemaMarker, ''#@''), (TIdent, ''id''), (TPunct, '':''), (TTypeName, ''uint'')] \<and>
      parseSchemaDef (drop 3 (elide ts)) = None)"
proof -
  have l: "lexTokens ''#! User\<newline>#@ id:uint, name:str\<newline>1, Alice\<newline>'' =
     Inr [(TTableMarker, ''#!''), (TWhitespace, '' ''), (TIdent, ''User''), (TNewline, ''\<newline>''),
          (TSchemaMarker, ''#@''), (TWhitespace, '' ''), (TIdent, ''id''), (TPunct, '':''),
          (TTypeName, ''uint''), (TPunct, '',''), (TWhitespace, '' ''), (TIdent, ''name''),
          (TPunct, '':''), (TTypeName, ''str''), (TNewline, ''\<newline>''),
          (TNumber, ''1''), (TPunct, '',''), (TWhitespace, '' ''), (TIdent, ''Alice''),
          (TNewline, ''\<newline>'')]"
    by code_simp
  have "\<exists>ts. lexTokens ''#! User\<newline>#@ id:uint, name:str\<newline>1, Alice\<newline>'' = Inr ts \<and>
      take 3 (elide ts) = [(TTableMarker, ''#!''), (TIdent, ''User''), (TNewline, ''\<newline>'')] \<and>
      parseTableHeader (elide ts) = None \<and>
      take 4 (drop 3 (elide ts)) =
        [(TSchemaMarker, ''#@''), (TIdent, ''id''), (TPunct, '':''), (TTypeName, ''uint'')] \<and>
      parseSchemaDef (drop 3 (elide ts)) = None"
    unfolding l by (rule exI, rule conjI, rule refl) code_simp
  then show ?thesis by (simp add: ParseString_panics)
qed

text \<open>
  Claim C8 fails on the code for the same reasons: for two consecutive header lines
  \<open>ParseString\<close> returns nothing, and the table-header rule matches the tokens of neither
  line. \<open>transform\<close> itself does what the claim says: given the two header nodes it makes
  the two tables in their order, without columns and rows (for every tree,
  \<open>transform_table_names\<close>).
\<close>

theorem consecutive_headers_not_recognised:
  "ParseString run ''#! A\<newline>#! B\<newline>'' = Panic (UnexpectedToken (TagPunct (CHR '']''))) \<and>
   (\<exists>ts. lexTokens ''#! A\<newline>#! B\<newline>'' = Inr ts \<and>
      elide ts = [(TTableMarker, ''#!''), (TIdent, ''A''), (TNewline, ''\<newline>''),
                  (TTableMarker, ''#!''), (TIdent, ''B''), (TNewline, ''\<newline>'')] \<and>
      parseTableHeader (elide ts) = None \<and>
      parseTableHeader (drop 3 (elide ts)) = None) \<and>
   transform [headerLine ''A'', headerLine ''B''] =
     \<lparr>Tables = [\<lparr>Name = ''A'', Columns = [], Rows = []\<rparr>, \<lparr>Name = ''B'', Columns = [], Rows = []\<rparr>]\<rparr>"
proof -
  have l: "lexTokens ''#! A\<newline>#! B\<newline>'' =
     Inr [(TTableMarker, ''#!''), (TWhitespace, '' ''), (TIdent, ''A''), (TNewline, ''\<newline>''),
          (TTableMarker, ''#!''), (TWhitespace, '' ''), (TIdent, ''B''), (TNewline, ''\<newline>'')]"
    by code_simp
  have a: "\<exists>ts. lexTokens ''#! A\<newline>#! B\<newline>'' = Inr ts \<and>
      elide ts = [(TTableMarker, ''#!''), (TIdent, ''A''), (TNewline, ''\<newline>''),
                  (TTableMarker, ''#!''), (TIdent, ''B''), (TNewline, ''\<newline>'')] \<and>
      parseTableHeader (elide ts) = None \<and>
      parseTableHeader (drop 3 (elide ts)) = None"
    unfolding l by (rule exI, rule conjI, rule refl) code_simp
  have b: "transform [headerLine ''A'', headerLine ''B''] =
     \<lparr>Tables = [\<lparr>Name = ''A'', Columns = [], Rows = []\<rparr>, \<lparr>Name = ''B'', Columns = [], Rows = []\<rparr>]\<rparr>"
    by code_simp
  from a b show ?thesis by (simp add: ParseString_panics)
qed

text \<open>
  Claim C10 fails on the code. For an input with a data row and a schema line before the
  first header line \<open>ParseString\<close> returns nothing, as for every input, where the claim
  says that the parse succeeds; the lexer, for its part, reads the input. \<open>transform\<close>
  does what the claim says of such lines: in a tree that has them before the first header
  node they change nothing (\<open>orphan_lines_ignored\<close>).
\<close>

theorem orphan_input_not_parsed:
  "ParseString run ''1, Alice\<newline>#@ id:uint\<newline>#! T\<newline>1\<newline>'' = Panic (UnexpectedToken (TagPunct (CHR '']''))) \<and>
   (\<exists>ts. lexTokens ''1, Alice\<newline>#@ id:uint\<newline>#! T\<newline>1\<newline>'' = Inr ts) \<and>
   transform ([exRow, exSchema] @ [exHeader, exRow]) = transform [exHeader, exRow] \<and>
   transform [exHeader, exRow] = \<lparr>Tables = [\<lparr>Name = ''T'', Columns = [], Rows = [[VInt 1]]\<rparr>]\<rparr>"
proof -
  have l: "lexTokens ''1, Alice\<newline>#@ id:uint\<newline>#! T\<newline>1\<newline>'' =
     Inr [(TNumber, ''1''), (TPunct, '',''), (TWhitespace, '' ''), (TIdent, ''Alice''),
          (TNewline, ''\<newline>''), (TSchemaMarker, ''#@''), (TWhitespace, '' ''), (TIdent, ''id''),
          (TPunct, '':''), (TTypeName, ''uint''), (TNewline, ''\<newline>''), (TTableMarker, ''#!''),
          (TWhitespace, '' ''), (TIdent, ''T''), (TNewline, ''\<newline>''), (TNumber, ''1''),
          (TNewline, ''\<newline>'')]"
    by code_simp
  have h: "list_all (\<lambda>l. TableHeader l = None) [exRow, exSchema]"
    by (simp add: exSchema_def exRow_def)
  have t: "transform ([exRow, exSchema] @ [exHeader, exRow]) = transform [exHeader, exRow]"
    using orphan_lines_ignored [OF h] by blast
  have e: "transform [exHeader, exRow] = \<lparr>Tables = [\<lparr>Name = ''T'', Columns = [], Rows = [[VInt 1]]\<rparr>]\<rparr>"
    by code_simp
  from l t e show ?thesis by (simp add: ParseString_panics)
qed

text \<open>
  Claim C4 fails on the code. No lexer rule matches a closing bracket, so a type with an
  array suffix is a lexing error in either order of the modifiers; and on the tokens
  \<open>? [ ]\<close> the column rule, which takes the array suffix first, stops after the
  nullable suffix and leaves the brackets.
\<close>

theorem modifier_orders_rejected:
  "lexTokens ''#! T\<newline>#@ a:int?[]\<newline>'' = Inl LexError \<and>
   lexTokens ''#! T\<newline>#@ a:int[]?\<newline>'' = Inl LexError \<and>
   parseColumnDef [(TIdent, ''a''), (TPunct, '':''), (TTypeName, ''int''), (TPunct, ''?''),
                   (TPunct, ''[''), (TPunct, '']'')] =
     Some (\<lparr>cdName = ''a'', TypeName = ''int'', Params = [], Array = False, Nullable = True\<rparr>,
           [(TPunct, ''[''), (TPunct, '']'')])"
  by code_simp

text \<open>
  Claim C7 as stated fails. For the inputs declaring \<open>price:decimal\<close> and
  \<open>price:decimal(10)\<close> no \<open>ParseError\<close> is returned: \<open>ParseString\<close> returns nothing, as
  for every input. And the grammar does not require the parameters: the lexer reads both
  column definitions, and the column rule accepts their tokens up to the line break, with
  no parameter and with one.
\<close>

theorem decimal_without_params_counterexample:
  "(\<forall>run. ParseString run ''#! P\<newline>#@ price:decimal\<newline>'' = Panic (UnexpectedToken (TagPunct (CHR '']'')))) \<and>
   (\<forall>run. ParseString run ''#! P\<newline>#@ price:decimal(10)\<newline>'' = Panic (UnexpectedToken (TagPunct (CHR '']'')))) \<and>
   lexTokens ''price:decimal\<newline>'' =
     Inr [(TIdent, ''price''), (TPunct, '':''), (TTypeName, ''decimal''), (TNewline, ''\<newline>'')] \<and>
   parseColumnDef [(TIdent, ''price''), (TPunct, '':''), (TTypeName, ''decimal''),
                   (TNewline, ''\<newline>'')] =
     Some (\<lparr>cdName = ''price'', TypeName = ''decimal'', Params = [], Array = False,
            Nullable = False\<rparr>, [(TNewline, ''\<newline>'')]) \<and>
   lexTokens ''price:decimal(10)\<newline>'' =
     Inr [(TIdent, ''price''), (TPunct, '':''), (TTypeName, ''decimal''), (TPunct, ''(''),
          (TNumber, ''10''), (TPunct, '')''), (TNewline, ''\<newline>'')] \<and>
   parseColumnDef [(TIdent, ''price''), (TPunct, '':''), (TTypeName, ''decimal''), (TPunct, ''(''),
                   (TNumber, ''10''), (TPunct, '')''), (TNewline, ''\<newline>'')] =
     Some (\<lparr>cdName = ''price'', TypeName = ''decimal'', Params = [''10''], Array = False,
            Nullable = False\<rparr>, [(TNewline, ''\<newline>'')])"
proof -
  have a: "\<forall>run. ParseString run ''#! P\<newline>#@ price:decimal\<newline>'' = Panic (UnexpectedToken (TagPunct (CHR '']'')))"
    by (simp add: ParseString_panics)
  have b: "\<forall>run. ParseString run ''#! P\<newline>#@ price:decimal(10)\<newline>'' = Panic (UnexpectedToken (TagPunct (CHR '']'')))"
    by (simp add: ParseString_panics)
  have c: "lexTokens ''price:decimal\<newline>'' =
     Inr [(TIdent, ''price''), (TPunct, '':''), (TTypeName, ''decimal''), (TNewline, ''\<newline>'')]"
    by code_simp
  have d: "parseColumnDef [(TIdent, ''price''), (TPunct, '':''), (TTypeName, ''decimal''),
                   (TNewline, ''\<newline>'')] =
     Some (\<lparr>cdName = ''price'', TypeName = ''decimal'', Params = [], Array = False,
            Nullable = False\<rparr>, [(TNewline, ''\<newline>'')])"
    by code_simp
  have e: "lexTokens ''price:decimal(10)\<newline>'' =
     Inr [(TIdent, ''price''), (TPunct, '':''), (TTypeName, ''decimal''), (TPunct, ''(''),
          (TNumber, ''10''), (TPunct, '')''), (TNewline, ''\<newline>'')]"
    by code_simp
  have f: "parseColumnDef [(TIdent, ''price''), (TPunct, '':''), (TTypeName, ''decimal''), (TPunct, ''(''),
                   (TNumber, ''10''), (TPunct, '')''), (TNewline, ''\<newline>'')] =
     Some (\<lparr>cdName = ''price'', TypeName = ''decimal'', Params = [''10''], Array = False,
            Nullable = False\<rparr>, [(TNewline, ''\<newline>'')])"
    by code_simp
  from a b c d e f show ?thesis by blast
qed

lemma formatType_decimal_few:
  assumes "ToLower (TypeName col) = ''decimal''" "length (Params col) < 2"
  shows "formatType col =
           ''decimal'' @ (if Array col then ''[]'' else []) @ (if Nullable col then ''?'' else [])"
  using assms by (simp add: formatType_def Let_def)

text \<open>
  Claim C7, as the code has it. The parameter list of a column type is optional for every
  base type and its length is not checked: a \<open>decimal\<close> column with no parameter list, or
  with a list of one parameter, is accepted by the column rule, so no error comes from the
  parameters of \<open>decimal\<close>; \<open>formatType\<close> then renders the type as plain \<open>decimal\<close> with
  its modifiers.
\<close>

theorem decimal_params_optional:
  assumes "isType TIdent n" "isLit '':'' c" "isType TTypeName ty" "ToLower (snd ty) = ''decimal''"
  shows "(r = [] \<or> \<not> isLit ''('' (hd r) \<longrightarrow>
           (\<exists>col rest. parseColumnDef (n # c # ty # r) = Some (col, rest) \<and>
              cdName col = snd n \<and> TypeName col = snd ty \<and> Params col = [] \<and>
              formatType col =
                ''decimal'' @ (if Array col then ''[]'' else []) @ (if Nullable col then ''?'' else []))) \<and>
         (isLit ''('' b \<and> (isType TIdent p \<or> isType TNumber p) \<and> isLit '')'' e \<longrightarrow>
           (\<exists>col rest. parseColumnDef (n # c # ty # b # p # e # r) = Some (col, rest) \<and>
              cdName col = snd n \<and> TypeName col = snd ty \<and> Params col = [snd p] \<and>
              formatType col =
                ''decimal'' @ (if Array col then ''[]'' else []) @ (if Nullable col then ''?'' else [])))"
proof (intro conjI impI)
  assume a: "r = [] \<or> \<not> isLit ''('' (hd r)"
  have pp: "parseParams r = ([], r)"
  proof (cases r)
    case Nil
    then show ?thesis by (simp add: parseParams_def)
  next
    case (Cons x xs)
    with a have "\<not> isLit ''('' x" by simp
    with Cons show ?thesis by (simp add: parseParams_def split: list.splits)
  qed
  let ?ar = "parseArray r"
  let ?qr = "parseNullable (snd ?ar)"
  let ?col = "\<lparr>cdName = snd n, TypeName = snd ty, Params = [], Array = fst ?ar, Nullable = fst ?qr\<rparr>"
  have p: "parseColumnDef (n # c # ty # r) = Some (?col, snd ?qr)"
    using assms(1-3) pp by (simp add: parseColumnDef_def Let_def)
  have f: "formatType ?col =
             ''decimal'' @ (if Array ?col then ''[]'' else []) @ (if Nullable ?col then ''?'' else [])"
    using formatType_decimal_few [of ?col] assms(4) by simp
  from p f show "\<exists>col rest. parseColumnDef (n # c # ty # r) = Some (col, rest) \<and>
      cdName col = snd n \<and> TypeName col = snd ty \<and> Params col = [] \<and>
      formatType col =
        ''decimal'' @ (if Array col then ''[]'' else []) @ (if Nullable col then ''?'' else [])"
    by (intro exI [of _ ?col] exI [of _ "snd ?qr"]) simp
next
  assume a: "isLit ''('' b \<and> (isType TIdent p \<or> isType TNumber p) \<and> isLit '')'' e"
  then have ns: "\<not> (isLit '','' e \<or> isLit ''.'' e \<or> isLit ''|'' e)"
    by (auto simp: isLit_def)
  have pt: "parseParamTail (e # r) = ([], e # r)"
    using ns by (cases r) simp_all
  have pp: "parseParams (b # p # e # r) = ([snd p], r)"
    using a pt by (simp add: parseParams_def Let_def)
  let ?ar = "parseArray r"
  let ?qr = "parseNullable (snd ?ar)"
  let ?col = "\<lparr>cdName = snd n, TypeName = snd ty, Params = [snd p], Array = fst ?ar,
               Nullable = fst ?qr\<rparr>"
  have p: "parseColumnDef (n # c # ty # b # p # e # r) = Some (?col, snd ?qr)"
    using assms(1-3) pp by (simp add: parseColumnDef_def Let_def)
  have f: "formatType ?col =
             ''decimal'' @ (if Array ?col then ''[]'' else []) @ (if Nullable ?col then ''?'' else [])"
    using formatType_decimal_few [of ?col] assms(4) by simp
  from p f show "\<exists>col rest. parseColumnDef (n # c # ty # b # p # e # r) = Some (col, rest) \<and>
      cdName col = snd n \<and> TypeName col = snd ty \<and> Params col = [snd p] \<and>
      formatType col =
        ''decimal'' @ (if Array col then ''[]'' else []) @ (if Nullable col then ''?'' else [])"
    by (intro exI [of _ ?col] exI [of _ "snd ?qr"]) simp
qed

theorem decimal_params_optional_witness:
  "isType TIdent (TIdent, ''price'') \<and> isLit '':'' (TPunct, '':'') \<and>
   isType TTypeName (TTypeName, ''decimal'') \<and> ToLower ''decimal'' = ''decimal'' \<and>
   \<not> isLit ''('' (TNewline, ''\<newline>'') \<and>
   (\<exists>col rest. parseColumnDef [(TIdent, ''price''), (TPunct, '':''), (TTypeName, ''decimal''),
                                (TNewline, ''\<newline>'')] = Some (col, rest) \<and>
      Params col = [] \<and> formatType col = ''decimal'') \<and>
   isLit ''('' (TPunct, ''('') \<and> isType TNumber (TNumber, ''10'') \<and> isLit '')'' (TPunct, '')'') \<and>
   (\<exists>col rest. parseColumnDef [(TIdent, ''price''), (TPunct, '':''), (TTypeName, ''decimal''),
                                (TPunct, ''(''), (TNumber, ''10''), (TPunct, '')''),
                                (TNewline, ''\<newline>'')] = Some (col, rest) \<and>
      Params col = [''10''] \<and> formatType col = ''decimal'')"
proof -
  have h: "isType TIdent (TIdent, ''price'')" "isLit '':'' (TPunct, '':'')"
      "isType TTypeName (TTypeName, ''decimal'')" "ToLower (snd (TTypeName, ''decimal'')) = ''decimal''"
    by code_simp+
  have g: "\<not> isLit ''('' (TNewline, ''\<newline>'')" "isLit ''('' (TPunct, ''('')"
      "isType TNumber (TNumber, ''10'')" "isLit '')'' (TPunct, '')'')"
    by (simp_all add: isType_def isLit_def)
  note t = decimal_params_optional [OF h, of "[(TNewline, ''\<newline>'')]" "(TPunct, ''('')"
      "(TNumber, ''10'')" "(TPunct, '')'')"]
  have a: "\<exists>col rest. parseColumnDef [(TIdent, ''price''), (TPunct, '':''), (TTypeName, ''decimal''),
                                (TNewline, ''\<newline>'')] = Some (col, rest) \<and>
      Params col = [] \<and> formatType col = ''decimal''"
  proof -
    from t g(1) obtain col rest where
      c: "parseColumnDef [(TIdent, ''price''), (TPunct, '':''), (TTypeName, ''decimal''),
            (TNewline, ''\<newline>'')] = Some (col, rest)" "Params col = []"
        "formatType col =
           ''decimal'' @ (if Array col then ''[]'' else []) @ (if Nullable col then ''?'' else [])"
      by auto
    have "parseColumnDef [(TIdent, ''price''), (TPunct, '':''), (TTypeName, ''decimal''),
            (TNewline, ''\<newline>'')] =
          Some (\<lparr>cdName = ''price'', TypeName = ''decimal'', Params = [], Array = False,
                  Nullable = False\<rparr>, [(TNewline, ''\<newline>'')])"
      by code_simp
    with c have "\<not> Array col" "\<not> Nullable col" by auto
    with c show ?thesis by auto
  qed
  have b: "\<exists>col rest. parseColumnDef [(TIdent, ''price''), (TPunct, '':''), (TTypeName, ''decimal''),
                                (TPunct, ''(''), (TNumber, ''10''), (TPunct, '')''),
                                (TNewline, ''\<newline>'')] = Some (col, rest) \<and>
      Params col = [''10''] \<and> formatType col = ''decimal''"
  proof -
    from t g(2-4) obtain col rest where
      c: "parseColumnDef [(TIdent, ''price''), (TPunct, '':''), (TTypeName, ''decimal''),
            (TPunct, ''(''), (TNumber, ''10''), (TPunct, '')''), (TNewline, ''\<newline>'')] =
            Some (col, rest)" "Params col = [''10'']"
        "formatType col =
           ''decimal'' @ (if Array col then ''[]'' else []) @ (if Nullable col then ''?'' else [])"
      by auto
    have "parseColumnDef [(TIdent, ''price''), (TPunct, '':''), (TTypeName, ''decimal''),
            (TPunct, ''(''), (TNumber, ''10''), (TPunct, '')''), (TNewline, ''\<newline>'')] =
          Some (\<lparr>cdName = ''price'', TypeName = ''decimal'', Params = [''10''], Array = False,
                  Nullable = False\<rparr>, [(TNewline, ''\<newline>'')])"
      by code_simp
    with c have "\<not> Array col" "\<not> Nullable col" by auto
    with c show ?thesis by auto
  qed
  from h g a b show ?thesis by simp
qed

text \<open>
  Claim C3 fails on the code for the descriptors with the array modifier: the rendering
  ends in \<open>[]\<close> or \<open>[]?\<close>, and no lexer rule matches the closing bracket, so it cannot
  be read back. This is shown for every base type without parameters, with and without
  the nullable modifier, and for a \<open>decimal\<close>, a \<open>ref\<close> and an \<open>enum\<close>. Without the array
  modifier these renderings are read back (\<open>simple_types_read_back\<close>,
  \<open>parameterised_types_read_back\<close>).
\<close>

theorem array_type_not_read_back:
  "formatType (descriptor ''str'' [] True False) = ''str[]'' \<and>
   resolveType (formatType (descriptor ''str'' [] True False)) = Inl LexError \<and>
   formatType (descriptor ''int'' [] True True) = ''int[]?'' \<and>
   resolveType (formatType (descriptor ''int'' [] True True)) = Inl LexError \<and>
   list_all (\<lambda>ty. resolveType (formatType (descriptor ty [] True False)) = Inl LexError \<and>
                  resolveType (formatType (descriptor ty [] True True)) = Inl LexError)
     typeNames \<and>
   resolveType (formatType (descriptor ''decimal'' [''10'', ''2''] True False)) = Inl LexError \<and>
   resolveType (formatType (descriptor ''ref'' [''User'', ''id''] True False)) = Inl LexError \<and>
   resolveType (formatType (descriptor ''enum'' [''pending'', ''shipped''] True True)) = Inl LexError"
  by code_simp

lemma simple_types_read_back:
  "list_all (\<lambda>ty. resolveType (formatType (descriptor ty [] False False)) = Inr (descriptor ty [] False False) \<and>
                  resolveType (formatType (descriptor ty [] False True)) = Inr (descriptor ty [] False True))
     typeNames"
  by code_simp

lemma parameterised_types_read_back:
  "resolveType (formatType (descriptor ''decimal'' [''10'', ''2''] False True)) =
     Inr (descriptor ''decimal'' [''10'', ''2''] False True) \<and>
   resolveType (formatType (descriptor ''ref'' [''User'', ''id''] False False)) =
     Inr (descriptor ''ref'' [''User'', ''id''] False False) \<and>
   resolveType (formatType (descriptor ''enum'' [''pending'', ''shipped''] False True)) =
     Inr (descriptor ''enum'' [''pending'', ''shipped''] False True)"
  by code_simp

section \<open>Properties of \<open>ToJSON\<close>\<close>

lemma marshalAll_ok:
  "(\<exists>js. marshalAll f xs = Inr js) = list_all (\<lambda>x. \<exists>j. f x = Inr j) xs"
proof (induction xs)
  case Nil
  then show ?case by simp
next
  case (Cons x xs)
  show ?case
  proof (cases "f x")
    case (Inl e)
    then show ?thesis by simp
  next
    case (Inr j)
    with Cons.IH show ?thesis by (cases "marshalAll f xs") auto
  qed
qed

lemma marshalValue_ok: "(\<exists>j. marshalValue v = Inr j) = finiteValue v"
  by (simp add: marshalValue_def finiteValue_def split: Value.splits float64.splits)

lemma marshalRow_ok: "(\<exists>j. marshalRow row = Inr j) = list_all finiteValue row"
proof -
  have "(\<exists>j. marshalRow row = Inr j) = (\<exists>js. marshalAll marshalValue row = Inr js)"
    by (cases "marshalAll marshalValue row") (simp_all add: marshalRow_def)
  then show ?thesis by (simp add: marshalAll_ok marshalValue_ok)
qed

lemma marshalTable_ok: "(\<exists>j. marshalTable t = Inr j) = list_all (list_all finiteValue) (Rows t)"
proof -
  have "(\<exists>j. marshalTable t = Inr j) = (\<exists>js. marshalAll marshalRow (Rows t) = Inr js)"
    by (cases "marshalAll marshalRow (Rows t)") (simp_all add: marshalTable_def)
  then show ?thesis by (simp add: marshalAll_ok marshalRow_ok)
qed

lemma Marshal_ok: "(\<exists>j. Marshal doc = Inr j) = finiteDocument doc"
proof -
  have "(\<exists>j. Marshal doc = Inr j) = (\<exists>js. marshalAll marshalTable (Tables doc) = Inr js)"
    by (cases "marshalAll marshalTable (Tables doc)") (simp_all add: Marshal_def)
  then show ?thesis by (simp add: marshalAll_ok marshalTable_ok finiteDocument_def)
qed

text \<open>
  Claim C6, as the code has it. \<open>ToJSON\<close> returns a result or an error: for both values
  of \<open>pretty\<close> it succeeds exactly when no row of the document holds a float that is NaN
  or infinite, and fails with the encoder's error otherwise.
\<close>

theorem ToJSON_succeeds_iff_finite:
  "(\<exists>j. ToJSON doc pretty = Inr j) = finiteDocument doc \<and>
   (\<exists>e. ToJSON doc pretty = Inl e) = (\<not> finiteDocument doc)"
proof -
  have t: "ToJSON doc pretty = Marshal doc"
    by (cases "Marshal doc") (simp_all add: ToJSON_def MarshalIndent_def)
  have "(\<exists>e. Marshal doc = Inl e) = (\<not> (\<exists>j. Marshal doc = Inr j))"
    by (cases "Marshal doc") simp_all
  with t Marshal_ok [of doc] show ?thesis by simp
qed

text \<open>
  Claim C6 as stated fails: a data row with the field \<open>NaN\<close> under a table header gives a
  document that \<open>ToJSON\<close> rejects, compact or indented.
\<close>

theorem ToJSON_NaN_counterexample:
  "transform [exHeader, exNaNRow] =
     \<lparr>Tables = [\<lparr>Name = ''T'', Columns = [], Rows = [[VFloat FNaN]]\<rparr>]\<rparr> \<and>
   ToJSON (transform [exHeader, exNaNRow]) False = Inl (UnsupportedValue FNaN) \<and>
   ToJSON (transform [exHeader, exNaNRow]) True = Inl (UnsupportedValue FNaN)"
  by code_simp

lemma ToJSON_example:
  "ToJSON (transform [exHeader, exRow]) True =
     Inr (JObject [(''tables'',
            JArray [JObject [(''name'', JString ''T''), (''columns'', JArray []),
                             (''rows'', JArray [JArray [JInt 1]])]])])"
  by code_simp

text \<open>
  The infinite floats come from the field texts \<open>Inf\<close> and \<open>Infinity\<close>, in any case and
  with an optional sign; a row holding one is rejected in the same way.
\<close>

lemma ToJSON_infinite_examples:
  "cleanField \<lparr>Quoted = None, Unquoted = Some ''Inf''\<rparr> = VFloat (FInf False) \<and>
   cleanField \<lparr>Quoted = None, Unquoted = Some ''-inf''\<rparr> = VFloat (FInf True) \<and>
   cleanField \<lparr>Quoted = None, Unquoted = Some ''+Infinity''\<rparr> = VFloat (FInf False) \<and>
   cleanField \<lparr>Quoted = None, Unquoted = Some ''-INFINITY''\<rparr> = VFloat (FInf True) \<and>
   ToJSON (transform [exHeader, rowOf ''Inf'']) False = Inl (UnsupportedValue (FInf False)) \<and>
   ToJSON (transform [exHeader, rowOf ''-Infinity'']) True = Inl (UnsupportedValue (FInf True))"
  by code_simp

end
